theory Spec2Isabelle
  imports Complex_Main
begin

section \<open>Data model (game.types.ts, abilities.types.ts)\<close>

text \<open>
  JavaScript numbers are modelled as \<open>int\<close>: every coordinate, hit point, mana and
  damage figure of the game is an integer. A \<open>Position\<close> \<open>{x, y}\<close> is the pair \<open>(x, y)\<close>.
\<close>

datatype PieceType = PAWN | KNIGHT | BISHOP | ROOK | QUEEN | KING

datatype Team = WHITE | BLACK

type_synonym Position = "int \<times> int"

record PieceStats =
  maxHp :: int
  currentHp :: int
  maxMana :: int
  currentMana :: int
  attackPower :: int
  defense :: int
  speed :: int
  magicPower :: int
  criticalChance :: int
  criticalDamage :: int
  tempHp :: "int option"
  tempHpTurns :: "int option"

datatype StatusEffectType = BUFF | DEBUFF | DOT | HOT

text \<open>
  The optional callbacks \<open>onApply\<close>, \<open>onRemove\<close>, \<open>onTurnStart\<close>, \<open>onTurnEnd\<close> of a
  status effect are absent from every effect the repository defines and are left out,
  as are the display fields \<open>description\<close> and \<open>icon\<close>.
\<close>

record StatusEffect =
  seId :: string
  seName :: string
  seType :: StatusEffectType
  duration :: int
  seValue :: int
  stackable :: bool

text \<open>
  A piece object. Its \<open>stats\<close> object and its \<open>statusEffects\<close> array are held inside
  the record; \<open>abilities\<close> are addresses of ability objects (the arrays of
  \<open>PIECE_ABILITIES\<close> are shared by all pieces of a type).
\<close>

record Piece =
  pieceId :: string
  ptype :: PieceType
  team :: Team
  position :: Position
  stats :: PieceStats
  hasMoved :: bool
  isAlive :: bool
  level :: int
  abilities :: "nat list"
  statusEffects :: "StatusEffect list"

definition isValidPosition :: "Position \<Rightarrow> bool" where
  "isValidPosition pos = (fst pos \<ge> 0 \<and> fst pos < 8 \<and> snd pos \<ge> 0 \<and> snd pos < 8)"

definition positionsEqual :: "Position \<Rightarrow> Position \<Rightarrow> bool" where
  "positionsEqual pos1 pos2 = (fst pos1 = fst pos2 \<and> snd pos1 = snd pos2)"

section \<open>Boards\<close>

text \<open>
  A board is the array of rows \<open>board[y][x]\<close>; \<open>None\<close> is \<open>null\<close>. The rules engine and
  the AI only read pieces, so they work on boards of piece values; the store and the
  ability system mutate piece objects in place and work on boards of addresses.

  \<open>cell\<close> is the read \<open>board[pos.y][pos.x]\<close> and \<open>setCell\<close> the write. Outside the
  grid \<open>cell\<close> yields \<open>None\<close> and \<open>setCell\<close> changes nothing; the source would raise a
  TypeError on a missing row or write a property that no loop visits. Every read of the
  source is either guarded by \<open>isValidPosition\<close> or made at the position of a piece,
  and the theorems below assume those positions valid.
\<close>

type_synonym 'a grid = "'a option list list"

type_synonym Board = "Piece grid"

definition inGrid :: "'a grid \<Rightarrow> Position \<Rightarrow> bool" where
  "inGrid b pos = (0 \<le> fst pos \<and> 0 \<le> snd pos \<and> nat (snd pos) < length b
     \<and> nat (fst pos) < length (b ! nat (snd pos)))"

definition cell :: "'a grid \<Rightarrow> Position \<Rightarrow> 'a option" where
  "cell b pos = (if inGrid b pos then b ! nat (snd pos) ! nat (fst pos) else None)"

definition setCell :: "'a grid \<Rightarrow> Position \<Rightarrow> 'a option \<Rightarrow> 'a grid" where
  "setCell b pos v = (if inGrid b pos
     then b[nat (snd pos) := (b ! nat (snd pos))[nat (fst pos) := v]] else b)"

text \<open>The squares in the order of the loops \<open>for y ... for x ...\<close>.\<close>

definition allSquares :: "Position list" where
  "allSquares = concat (map (\<lambda>y. map (\<lambda>x. (x, y)) [0..7]) [0..7])"

definition wfBoard :: "'a grid \<Rightarrow> bool" where
  "wfBoard b = (length b = 8 \<and> (\<forall>row \<in> set b. length row = 8))"

section \<open>Move rules (ChessRules.ts)\<close>

definition getPawnMoves :: "Piece \<Rightarrow> Board \<Rightarrow> Position list" where
  "getPawnMoves piece b =
    (let x = fst (position piece); y = snd (position piece);
         direction = (if team piece = WHITE then -1 else 1);
         startRow = (if team piece = WHITE then 6 else 1);
         oneForward = (x, y + direction);
         twoForward = (x, y + direction * 2);
         forward =
           (if isValidPosition oneForward \<and> cell b oneForward = None
            then oneForward #
              (if y = startRow \<and> isValidPosition twoForward \<and> cell b twoForward = None
               then [twoForward] else [])
            else []);
         captureLeft = (x - 1, y + direction);
         captureRight = (x + 1, y + direction)
     in forward @
        filter (\<lambda>pos. isValidPosition pos \<and>
                  (case cell b pos of None \<Rightarrow> False
                   | Some targetPiece \<Rightarrow> team targetPiece \<noteq> team piece))
          [captureLeft, captureRight])"

text \<open>A square a piece may land on: empty, or held by the other team.\<close>

definition landable :: "Piece \<Rightarrow> Board \<Rightarrow> Position \<Rightarrow> bool" where
  "landable piece b pos = (isValidPosition pos \<and>
     (case cell b pos of None \<Rightarrow> True
      | Some targetPiece \<Rightarrow> team targetPiece \<noteq> team piece))"

definition getKnightMoves :: "Piece \<Rightarrow> Board \<Rightarrow> Position list" where
  "getKnightMoves piece b =
    (let x = fst (position piece); y = snd (position piece)
     in filter (landable piece b)
          [(x + 2, y + 1), (x + 2, y - 1), (x - 2, y + 1), (x - 2, y - 1),
           (x + 1, y + 2), (x + 1, y - 2), (x - 1, y + 2), (x - 1, y - 2)])"

text \<open>
  The inner loop \<open>for (i = 1; i < 8; i++)\<close> of \<open>getDiagonalMoves\<close> and
  \<open>getStraightMoves\<close>, over the remaining values of \<open>i\<close>: it breaks at the board edge
  and at the first piece, which is included when it is an enemy.
\<close>

fun rayMoves :: "Piece \<Rightarrow> Board \<Rightarrow> int \<times> int \<Rightarrow> int list \<Rightarrow> Position list" where
  "rayMoves piece b d [] = []"
| "rayMoves piece b d (i # rest) =
    (let pos = (fst (position piece) + fst d * i, snd (position piece) + snd d * i)
     in if \<not> isValidPosition pos then []
        else (case cell b pos of
                None \<Rightarrow> pos # rayMoves piece b d rest
              | Some targetPiece \<Rightarrow>
                  (if team targetPiece \<noteq> team piece then [pos] else [])))"

definition getDiagonalMoves :: "Piece \<Rightarrow> Board \<Rightarrow> Position list" where
  "getDiagonalMoves piece b =
     concat (map (\<lambda>d. rayMoves piece b d [1..7]) [(1, 1), (1, -1), (-1, 1), (-1, -1)])"

definition getStraightMoves :: "Piece \<Rightarrow> Board \<Rightarrow> Position list" where
  "getStraightMoves piece b =
     concat (map (\<lambda>d. rayMoves piece b d [1..7]) [(0, 1), (0, -1), (1, 0), (-1, 0)])"

definition getBishopMoves :: "Piece \<Rightarrow> Board \<Rightarrow> Position list" where
  "getBishopMoves piece b = getDiagonalMoves piece b"

definition getRookMoves :: "Piece \<Rightarrow> Board \<Rightarrow> Position list" where
  "getRookMoves piece b = getStraightMoves piece b"

definition getQueenMoves :: "Piece \<Rightarrow> Board \<Rightarrow> Position list" where
  "getQueenMoves piece b = getStraightMoves piece b @ getDiagonalMoves piece b"

text \<open>The eight neighbours in the order \<open>for dx ... for dy ...\<close>, the centre skipped.\<close>

definition getBasicKingMoves :: "Piece \<Rightarrow> Board \<Rightarrow> Position list" where
  "getBasicKingMoves piece b =
    (let x = fst (position piece); y = snd (position piece)
     in filter (landable piece b)
          (concat (map (\<lambda>dx. concat (map (\<lambda>dy.
              if dx = 0 \<and> dy = 0 then [] else [(x + dx, y + dy)]) [-1, 0, 1])) [-1, 0, 1])))"

definition getRawValidMoves :: "Piece \<Rightarrow> Board \<Rightarrow> Position list" where
  "getRawValidMoves piece b =
     filter isValidPosition
       (case ptype piece of
          PAWN \<Rightarrow> getPawnMoves piece b
        | KNIGHT \<Rightarrow> getKnightMoves piece b
        | BISHOP \<Rightarrow> getBishopMoves piece b
        | ROOK \<Rightarrow> getRookMoves piece b
        | QUEEN \<Rightarrow> getQueenMoves piece b
        | KING \<Rightarrow> getBasicKingMoves piece b)"

text \<open>The first king of the team in scanning order, as the two nested loops find it.\<close>

definition findKing :: "Team \<Rightarrow> Board \<Rightarrow> Position option" where
  "findKing tm b =
     find (\<lambda>pos. case cell b pos of None \<Rightarrow> False
                 | Some piece \<Rightarrow> ptype piece = KING \<and> team piece = tm) allSquares"

definition isKingInCheck :: "Team \<Rightarrow> Board \<Rightarrow> bool" where
  "isKingInCheck tm b =
    (case findKing tm b of
       None \<Rightarrow> False
     | Some kingPosition \<Rightarrow>
         list_ex (\<lambda>pos. case cell b pos of None \<Rightarrow> False
                    | Some piece \<Rightarrow> team piece \<noteq> tm \<and> isAlive piece \<and>
                        list_ex (\<lambda>move. positionsEqual move kingPosition)
                          (getRawValidMoves piece b))
           allSquares)"

definition wouldMoveResultInCheck :: "Piece \<Rightarrow> Position \<Rightarrow> Board \<Rightarrow> bool" where
  "wouldMoveResultInCheck piece to b =
    (let boardCopy = setCell b to (Some (piece\<lparr>position := to\<rparr>));
         boardCopy = setCell boardCopy (position piece) None
     in isKingInCheck (team piece) boardCopy)"

definition getCastlingMoves :: "Piece \<Rightarrow> Board \<Rightarrow> Position list" where
  "getCastlingMoves king b =
    (let y = snd (position king)
     in (case cell b (7, y) of
           None \<Rightarrow> []
         | Some kingsideRook \<Rightarrow>
             (if ptype kingsideRook = ROOK \<and> team kingsideRook = team king
                  \<and> \<not> hasMoved kingsideRook
                  \<and> cell b (5, y) = None \<and> cell b (6, y) = None
                  \<and> \<not> wouldMoveResultInCheck king (5, y) b
                  \<and> \<not> wouldMoveResultInCheck king (6, y) b
              then [(6, y)] else []))
        @
        (case cell b (0, y) of
           None \<Rightarrow> []
         | Some queensideRook \<Rightarrow>
             (if ptype queensideRook = ROOK \<and> team queensideRook = team king
                  \<and> \<not> hasMoved queensideRook
                  \<and> cell b (1, y) = None \<and> cell b (2, y) = None \<and> cell b (3, y) = None
                  \<and> \<not> wouldMoveResultInCheck king (3, y) b
                  \<and> \<not> wouldMoveResultInCheck king (2, y) b
              then [(2, y)] else [])))"

definition getKingMoves :: "Piece \<Rightarrow> Board \<Rightarrow> Position list" where
  "getKingMoves piece b =
     getBasicKingMoves piece b @
     (if \<not> hasMoved piece \<and> \<not> isKingInCheck (team piece) b
      then getCastlingMoves piece b else [])"

definition getValidMoves :: "Piece \<Rightarrow> Board \<Rightarrow> Position list" where
  "getValidMoves piece b =
     filter (\<lambda>pos. isValidPosition pos \<and> \<not> wouldMoveResultInCheck piece pos b)
       (case ptype piece of
          PAWN \<Rightarrow> getPawnMoves piece b
        | KNIGHT \<Rightarrow> getKnightMoves piece b
        | BISHOP \<Rightarrow> getBishopMoves piece b
        | ROOK \<Rightarrow> getRookMoves piece b
        | QUEEN \<Rightarrow> getQueenMoves piece b
        | KING \<Rightarrow> getKingMoves piece b)"

definition isMoveValid :: "Piece \<Rightarrow> Position \<Rightarrow> Board \<Rightarrow> bool" where
  "isMoveValid piece to b = list_ex (\<lambda>move. positionsEqual move to) (getValidMoves piece b)"

definition isCastlingMove :: "Piece \<Rightarrow> Position \<Rightarrow> bool" where
  "isCastlingMove king to =
     (let dx = \<bar>fst to - fst (position king)\<bar> in ptype king = KING \<and> dx = 2)"

text \<open>
  The living pieces of a team that have at least one legal move: the loop of
  \<open>isCheckmate\<close> and \<open>isStalemate\<close> returns \<open>false\<close> at the first of them.
\<close>

definition hasLegalMove :: "Team \<Rightarrow> Board \<Rightarrow> bool" where
  "hasLegalMove tm b =
     list_ex (\<lambda>pos. case cell b pos of None \<Rightarrow> False
                | Some piece \<Rightarrow> team piece = tm \<and> isAlive piece \<and>
                    length (getValidMoves piece b) > 0)
       allSquares"

definition isCheckmate :: "Team \<Rightarrow> Board \<Rightarrow> bool" where
  "isCheckmate tm b = (if \<not> isKingInCheck tm b then False else \<not> hasLegalMove tm b)"

definition isStalemate :: "Team \<Rightarrow> Board \<Rightarrow> bool" where
  "isStalemate tm b = (if isKingInCheck tm b then False else \<not> hasLegalMove tm b)"

section \<open>Abilities and the object store (abilities.types.ts)\<close>

datatype TargetType = SELF | ALLY | ENEMY | EMPTY_SQUARE | ANY_SQUARE | AOE

datatype EffectType = Damage | Heal | Buff | Debuff | Teleport | Summon | Transform

record AbilityEffect =
  efType :: EffectType
  efValue :: "int option"
  statusEffect :: "StatusEffect option"
  areaOfEffect :: "int option"

record Ability =
  abilityId :: string
  abilityName :: string
  manaCost :: int
  cooldown :: int
  currentCooldown :: "int option"
  abilityRange :: int
  targetType :: TargetType
  effects :: "AbilityEffect list"
  levelRequirement :: int

text \<open>
  Piece and ability objects are mutated in place and shared between the board that a
  function receives and the copy it returns (\<open>board.map(row => [...row])\<close> copies the
  rows, not the pieces). The store maps an address to the object that lives there;
  \<open>nextRef\<close> is the first unused address, where an object literal is allocated.
\<close>

record Heap =
  pieces :: "nat \<Rightarrow> Piece"
  abils :: "nat \<Rightarrow> Ability"
  nextRef :: nat

type_synonym RefBoard = "nat grid"

definition deref :: "Heap \<Rightarrow> RefBoard \<Rightarrow> Board" where
  "deref h b = map (map (map_option (pieces h))) b"

definition newPiece :: "Piece \<Rightarrow> Heap \<Rightarrow> nat \<times> Heap" where
  "newPiece p h = (nextRef h, h\<lparr>pieces := (pieces h)(nextRef h := p), nextRef := Suc (nextRef h)\<rparr>)"

definition updPiece :: "nat \<Rightarrow> (Piece \<Rightarrow> Piece) \<Rightarrow> Heap \<Rightarrow> Heap" where
  "updPiece r f h = h\<lparr>pieces := (pieces h)(r := f (pieces h r))\<rparr>"

definition updAbility :: "nat \<Rightarrow> (Ability \<Rightarrow> Ability) \<Rightarrow> Heap \<Rightarrow> Heap" where
  "updAbility a f h = h\<lparr>abils := (abils h)(a := f (abils h a))\<rparr>"

section \<open>Text of the messages\<close>

definition digitChar :: "nat \<Rightarrow> char" where
  "digitChar n = char_of (48 + n)"

function showNat :: "nat \<Rightarrow> string" where
  "showNat n = (if n < 10 then [digitChar n] else showNat (n div 10) @ [digitChar (n mod 10)])"
  by pat_completeness auto
termination
  by (relation "measure id") auto

definition showInt :: "int \<Rightarrow> string" where
  "showInt i = (if i < 0 then CHR ''-'' # showNat (nat (- i)) else showNat (nat i))"

fun typeName :: "PieceType \<Rightarrow> string" where
  "typeName PAWN = ''pawn''"
| "typeName KNIGHT = ''knight''"
| "typeName BISHOP = ''bishop''"
| "typeName ROOK = ''rook''"
| "typeName QUEEN = ''queen''"
| "typeName KING = ''king''"

section \<open>Ability system (AbilitySystem)\<close>

definition canUseAbility :: "Piece \<Rightarrow> Ability \<Rightarrow> bool \<times> string option" where
  "canUseAbility piece ability =
    (if \<not> isAlive piece then (False, Some ''Piece is not alive'')
     else if currentMana (stats piece) < manaCost ability then (False, Some ''Not enough mana'')
     else if (case currentCooldown ability of None \<Rightarrow> False | Some c \<Rightarrow> c \<noteq> 0 \<and> c > 0)
       then (False, Some ''Ability is on cooldown'')
     else if level piece < levelRequirement ability
       then (False, Some ''Level requirement not met'')
     else (True, None))"

definition getDistance :: "Position \<Rightarrow> Position \<Rightarrow> int" where
  "getDistance pos1 pos2 = max \<bar>fst pos1 - fst pos2\<bar> \<bar>snd pos1 - snd pos2\<bar>"

definition isValidTarget :: "Piece \<Rightarrow> Ability \<Rightarrow> Position \<Rightarrow> Board \<Rightarrow> bool" where
  "isValidTarget caster ability targetPos b =
    (if \<not> isValidPosition targetPos then False
     else if getDistance (position caster) targetPos > abilityRange ability then False
     else (case targetType ability of
         SELF \<Rightarrow> positionsEqual (position caster) targetPos
       | ALLY \<Rightarrow> (case cell b targetPos of None \<Rightarrow> False
                   | Some targetPiece \<Rightarrow> team targetPiece = team caster \<and> isAlive targetPiece)
       | ENEMY \<Rightarrow> (case cell b targetPos of None \<Rightarrow> False
                   | Some targetPiece \<Rightarrow> team targetPiece \<noteq> team caster \<and> isAlive targetPiece)
       | EMPTY_SQUARE \<Rightarrow> cell b targetPos = None
       | ANY_SQUARE \<Rightarrow> True
       | AOE \<Rightarrow> True))"

definition getValidTargets :: "Piece \<Rightarrow> Ability \<Rightarrow> Board \<Rightarrow> Position list" where
  "getValidTargets caster ability b =
     filter (\<lambda>targetPos. isValidTarget caster ability targetPos b) allSquares"

text \<open>
  The state that the effect functions of \<open>executeAbility\<close> share: the board copy
  \<open>newBoard\<close>, the store, and the arrays \<open>messages\<close> and \<open>affectedPieces\<close>.
\<close>

record Exec =
  xBoard :: RefBoard
  xHeap :: Heap
  xMessages :: "string list"
  xAffected :: "nat list"

definition getAOETargets :: "Position \<Rightarrow> int \<Rightarrow> RefBoard \<Rightarrow> nat list" where
  "getAOETargets centerPos radius b =
     concat (map (\<lambda>dy. concat (map (\<lambda>dx.
        (let pos = (fst centerPos + dx, snd centerPos + dy)
         in if isValidPosition pos
            then (case cell b pos of None \<Rightarrow> [] | Some piece \<Rightarrow> [piece])
            else [])) [- radius..radius])) [- radius..radius])"

text \<open>
  \<open>effect.areaOfEffect ? getAOETargets(...) : [board[y][x]].filter(Boolean)\<close>: an
  absent or zero radius is falsy.
\<close>

definition effectTargets :: "AbilityEffect \<Rightarrow> Position \<Rightarrow> RefBoard \<Rightarrow> nat list" where
  "effectTargets effect targetPos b =
    (case areaOfEffect effect of
       Some radius \<Rightarrow>
         (if radius \<noteq> 0 then getAOETargets targetPos radius b
          else (case cell b targetPos of None \<Rightarrow> [] | Some piece \<Rightarrow> [piece]))
     | None \<Rightarrow> (case cell b targetPos of None \<Rightarrow> [] | Some piece \<Rightarrow> [piece]))"

definition effectValue :: "AbilityEffect \<Rightarrow> int" where
  "effectValue effect = (case efValue effect of None \<Rightarrow> 0 | Some v \<Rightarrow> v)"

text \<open>One round of the loop \<open>for (const target of targets)\<close> of \<open>executeDamageEffect\<close>.\<close>

definition damageTarget :: "nat \<Rightarrow> AbilityEffect \<Rightarrow> nat \<Rightarrow> Exec \<Rightarrow> Exec" where
  "damageTarget caster effect target s =
    (let h = xHeap s
     in if team (pieces h target) = team (pieces h caster) then s
        else
          (let damage = effectValue effect;
               actualDamage = max 1 (damage - defense (stats (pieces h target)));
               newHp = max 0 (currentHp (stats (pieces h target)) - actualDamage);
               h1 = updPiece target (\<lambda>p. p\<lparr>stats := (stats p)\<lparr>currentHp := newHp\<rparr>\<rparr>) h
           in if newHp \<le> 0
              then s\<lparr>xHeap := updPiece target (\<lambda>p. p\<lparr>isAlive := False\<rparr>) h1,
                     xBoard := setCell (xBoard s) (position (pieces h1 target)) None,
                     xMessages := xMessages s @ [typeName (ptype (pieces h1 target)) @ '' was defeated!''],
                     xAffected := xAffected s @ [target]\<rparr>
              else s\<lparr>xHeap := h1,
                     xMessages := xMessages s @
                       [typeName (ptype (pieces h1 target)) @ '' took '' @ showInt actualDamage @ '' damage!''],
                     xAffected := xAffected s @ [target]\<rparr>))"

definition executeDamageEffect :: "nat \<Rightarrow> AbilityEffect \<Rightarrow> Position \<Rightarrow> Exec \<Rightarrow> Exec" where
  "executeDamageEffect caster effect targetPos s =
     fold (damageTarget caster effect) (effectTargets effect targetPos (xBoard s)) s"

definition healTarget :: "nat \<Rightarrow> AbilityEffect \<Rightarrow> nat \<Rightarrow> Exec \<Rightarrow> Exec" where
  "healTarget caster effect target s =
    (let h = xHeap s
     in if team (pieces h target) \<noteq> team (pieces h caster) then s
        else
          (let healAmount = effectValue effect;
               oldHp = currentHp (stats (pieces h target));
               newHp = min (maxHp (stats (pieces h target))) (oldHp + healAmount);
               h1 = updPiece target (\<lambda>p. p\<lparr>stats := (stats p)\<lparr>currentHp := newHp\<rparr>\<rparr>) h;
               actualHeal = newHp - oldHp
           in if actualHeal > 0
              then s\<lparr>xHeap := h1,
                     xMessages := xMessages s @
                       [typeName (ptype (pieces h1 target)) @ '' recovered '' @ showInt actualHeal @ '' HP!''],
                     xAffected := xAffected s @ [target]\<rparr>
              else s\<lparr>xHeap := h1\<rparr>))"

definition executeHealEffect :: "nat \<Rightarrow> AbilityEffect \<Rightarrow> Position \<Rightarrow> Exec \<Rightarrow> Exec" where
  "executeHealEffect caster effect targetPos s =
     fold (healTarget caster effect) (effectTargets effect targetPos (xBoard s)) s"

definition statusTarget :: "nat \<Rightarrow> AbilityEffect \<Rightarrow> nat \<Rightarrow> Exec \<Rightarrow> Exec" where
  "statusTarget caster effect target s =
    (let h = xHeap s;
         isBuffForAlly = (efType effect = Buff \<and> team (pieces h target) = team (pieces h caster));
         isDebuffForEnemy = (efType effect = Debuff \<and> team (pieces h target) \<noteq> team (pieces h caster))
     in if \<not> isBuffForAlly \<and> \<not> isDebuffForEnemy then s
        else (case statusEffect effect of
            None \<Rightarrow> s
          | Some se \<Rightarrow>
              (let h1 = (if \<not> stackable se
                         then updPiece target (\<lambda>p. p\<lparr>statusEffects :=
                                filter (\<lambda>e. seId e \<noteq> seId se) (statusEffects p)\<rparr>) h
                         else h);
                   h2 = updPiece target (\<lambda>p. p\<lparr>statusEffects := statusEffects p @ [se]\<rparr>) h1
               in s\<lparr>xHeap := h2,
                     xMessages := xMessages s @
                       [typeName (ptype (pieces h2 target)) @ '' is affected by '' @ seName se @ ''!''],
                     xAffected := xAffected s @ [target]\<rparr>)))"

definition executeStatusEffect :: "nat \<Rightarrow> AbilityEffect \<Rightarrow> Position \<Rightarrow> Exec \<Rightarrow> Exec" where
  "executeStatusEffect caster effect targetPos s =
     fold (statusTarget caster effect) (effectTargets effect targetPos (xBoard s)) s"

definition executeTeleportEffect :: "nat \<Rightarrow> AbilityEffect \<Rightarrow> Position \<Rightarrow> Exec \<Rightarrow> Exec" where
  "executeTeleportEffect caster effect targetPos s =
    (let b1 = setCell (xBoard s) (position (pieces (xHeap s) caster)) None;
         h1 = updPiece caster (\<lambda>p. p\<lparr>position := targetPos\<rparr>) (xHeap s);
         b2 = setCell b1 targetPos (Some caster)
     in s\<lparr>xBoard := b2, xHeap := h1,
           xMessages := xMessages s @ [typeName (ptype (pieces h1 caster)) @ '' teleported!''],
           xAffected := xAffected s @ [caster]\<rparr>)"

text \<open>The \<open>switch (effect.type)\<close> of \<open>executeAbility\<close>.\<close>

definition executeEffect :: "nat \<Rightarrow> Position \<Rightarrow> AbilityEffect \<Rightarrow> Exec \<Rightarrow> Exec" where
  "executeEffect caster targetPos effect s =
    (case efType effect of
       Damage \<Rightarrow> executeDamageEffect caster effect targetPos s
     | Heal \<Rightarrow> executeHealEffect caster effect targetPos s
     | Buff \<Rightarrow> executeStatusEffect caster effect targetPos s
     | Debuff \<Rightarrow> executeStatusEffect caster effect targetPos s
     | Teleport \<Rightarrow> executeTeleportEffect caster effect targetPos s
     | Summon \<Rightarrow> s
     | Transform \<Rightarrow> s)"

record AbilityResult =
  success :: bool
  resultBoard :: RefBoard
  messages :: "string list"
  affectedPieces :: "nat list"

text \<open>
  \<open>executeAbility(caster, ability, targetPos, board)\<close>: \<open>caster\<close> and \<open>ability\<close> are the
  addresses of the two objects. The result is the returned object and the store after
  the call.
\<close>

definition executeAbility :: "nat \<Rightarrow> nat \<Rightarrow> Position \<Rightarrow> RefBoard \<Rightarrow> Heap \<Rightarrow> AbilityResult \<times> Heap" where
  "executeAbility caster ability targetPos b h =
    (let newBoard = b;
         canUseCheck = canUseAbility (pieces h caster) (abils h ability)
     in if \<not> fst canUseCheck
        then (\<lparr>success = False, resultBoard = b,
               messages = [case snd canUseCheck of
                             None \<Rightarrow> ''Cannot use ability''
                           | Some reason \<Rightarrow> if reason = [] then ''Cannot use ability'' else reason],
               affectedPieces = []\<rparr>, h)
        else
          (let h1 = updPiece caster (\<lambda>p. p\<lparr>stats := (stats p)\<lparr>currentMana :=
                      currentMana (stats p) - manaCost (abils h ability)\<rparr>\<rparr>) h;
               h2 = updAbility ability (\<lambda>a. a\<lparr>currentCooldown := Some (cooldown a)\<rparr>) h1;
               s = fold (executeEffect caster targetPos) (effects (abils h2 ability))
                     \<lparr>xBoard = newBoard, xHeap = h2, xMessages = [], xAffected = []\<rparr>;
               msgs = (typeName (ptype (pieces (xHeap s) caster)) @ '' used ''
                        @ abilityName (abils (xHeap s) ability) @ ''!'') # xMessages s
           in (\<lparr>success = True, resultBoard = xBoard s, messages = msgs,
                 affectedPieces = xAffected s\<rparr>, xHeap s)))"

text \<open>
  One call of the callback that \<open>processStatusEffects\<close> passes to \<open>filter\<close>: the piece
  after the effect was applied, the effect with its duration decremented when it is
  kept, and the messages.
\<close>

definition tickEffect :: "StatusEffect \<Rightarrow> Piece \<Rightarrow> Piece \<times> StatusEffect option \<times> string list" where
  "tickEffect effect piece =
    (let (piece1, msgs1) =
           (if seType effect = DOT then
              (let newHp = max 0 (currentHp (stats piece) - seValue effect);
                   p1 = piece\<lparr>stats := (stats piece)\<lparr>currentHp := newHp\<rparr>\<rparr>;
                   m1 = [typeName (ptype piece) @ '' takes '' @ showInt (seValue effect)
                           @ '' damage from '' @ seName effect @ ''!'']
               in if newHp \<le> 0
                  then (p1\<lparr>isAlive := False\<rparr>,
                        m1 @ [typeName (ptype piece) @ '' was defeated by '' @ seName effect @ ''!''])
                  else (p1, m1))
            else if seType effect = HOT then
              (let oldHp = currentHp (stats piece);
                   newHp = min (maxHp (stats piece)) (oldHp + seValue effect);
                   p1 = piece\<lparr>stats := (stats piece)\<lparr>currentHp := newHp\<rparr>\<rparr>;
                   healed = newHp - oldHp
               in if healed > 0
                  then (p1, [typeName (ptype piece) @ '' recovers '' @ showInt healed
                               @ '' HP from '' @ seName effect @ ''!''])
                  else (p1, []))
            else (piece, []));
         effect1 = effect\<lparr>duration := duration effect - 1\<rparr>
     in if duration effect1 \<le> 0
        then (piece1, None, msgs1 @ [seName effect @ '' has worn off from '' @ typeName (ptype piece) @ ''!''])
        else (piece1, Some effect1, msgs1))"

fun tickEffects :: "StatusEffect list \<Rightarrow> Piece \<Rightarrow> Piece \<times> StatusEffect list \<times> string list" where
  "tickEffects [] piece = (piece, [], [])"
| "tickEffects (effect # rest) piece =
    (let (piece1, kept, msgs1) = tickEffect effect piece;
         (piece2, keptRest, msgs2) = tickEffects rest piece1
     in (piece2, (case kept of None \<Rightarrow> keptRest | Some e \<Rightarrow> e # keptRest), msgs1 @ msgs2))"

definition processStatusEffects :: "nat \<Rightarrow> Heap \<Rightarrow> string list \<times> Heap" where
  "processStatusEffects r h =
    (let (piece1, kept, msgs) = tickEffects (statusEffects (pieces h r)) (pieces h r)
     in (msgs, updPiece r (\<lambda>p. piece1\<lparr>statusEffects := kept\<rparr>) h))"

section \<open>Predefined statistics and abilities\<close>

fun DEFAULT_PIECE_STATS :: "PieceType \<Rightarrow> PieceStats" where
  "DEFAULT_PIECE_STATS PAWN = \<lparr>maxHp = 50, currentHp = 50, maxMana = 100, currentMana = 100,
     attackPower = 20, defense = 5, speed = 3, magicPower = 5, criticalChance = 5,
     criticalDamage = 50, tempHp = None, tempHpTurns = None\<rparr>"
| "DEFAULT_PIECE_STATS KNIGHT = \<lparr>maxHp = 75, currentHp = 75, maxMana = 100, currentMana = 100,
     attackPower = 30, defense = 8, speed = 6, magicPower = 8, criticalChance = 15,
     criticalDamage = 75, tempHp = None, tempHpTurns = None\<rparr>"
| "DEFAULT_PIECE_STATS BISHOP = \<lparr>maxHp = 70, currentHp = 70, maxMana = 100, currentMana = 100,
     attackPower = 25, defense = 6, speed = 4, magicPower = 20, criticalChance = 10,
     criticalDamage = 60, tempHp = None, tempHpTurns = None\<rparr>"
| "DEFAULT_PIECE_STATS ROOK = \<lparr>maxHp = 100, currentHp = 100, maxMana = 100, currentMana = 100,
     attackPower = 35, defense = 12, speed = 2, magicPower = 5, criticalChance = 8,
     criticalDamage = 80, tempHp = None, tempHpTurns = None\<rparr>"
| "DEFAULT_PIECE_STATS QUEEN = \<lparr>maxHp = 120, currentHp = 120, maxMana = 100, currentMana = 100,
     attackPower = 40, defense = 10, speed = 5, magicPower = 25, criticalChance = 20,
     criticalDamage = 90, tempHp = None, tempHpTurns = None\<rparr>"
| "DEFAULT_PIECE_STATS KING = \<lparr>maxHp = 150, currentHp = 150, maxMana = 100, currentMana = 100,
     attackPower = 30, defense = 15, speed = 3, magicPower = 15, criticalChance = 12,
     criticalDamage = 70, tempHp = None, tempHpTurns = None\<rparr>"

text \<open>
  The twelve ability objects of \<open>PIECE_ABILITIES\<close>, two per piece type, in the order
  pawn, knight, bishop, rook, queen, king; the object number \<open>n\<close> of the list lives at
  address \<open>n\<close>.
\<close>

definition mkAbility ::
  "string \<Rightarrow> string \<Rightarrow> int \<Rightarrow> int \<Rightarrow> int \<Rightarrow> TargetType \<Rightarrow> int \<Rightarrow> AbilityEffect list \<Rightarrow> Ability" where
  "mkAbility i n cost cd rng tt lvl efs =
     \<lparr>abilityId = i, abilityName = n, manaCost = cost, cooldown = cd, currentCooldown = None,
      abilityRange = rng, targetType = tt, effects = efs, levelRequirement = lvl\<rparr>"

definition mkStatus :: "string \<Rightarrow> string \<Rightarrow> StatusEffectType \<Rightarrow> int \<Rightarrow> int \<Rightarrow> StatusEffect" where
  "mkStatus i n ty dur v =
     \<lparr>seId = i, seName = n, seType = ty, duration = dur, seValue = v, stackable = False\<rparr>"

definition PIECE_ABILITIES :: "Ability list" where
  "PIECE_ABILITIES =
    [mkAbility ''pawn_charge'' ''Shield Wall'' 20 5 0 SELF 1
       [\<lparr>efType = Buff, efValue = None,
         statusEffect = Some (mkStatus ''shield_wall'' ''Shield Wall'' BUFF 3 2),
         areaOfEffect = None\<rparr>],
     mkAbility ''pawn_heal'' ''Field Medic'' 15 3 1 ALLY 3
       [\<lparr>efType = Heal, efValue = Some 25, statusEffect = None, areaOfEffect = None\<rparr>],
     mkAbility ''knight_leap'' ''Lightning Strike'' 30 4 5 EMPTY_SQUARE 1
       [\<lparr>efType = Teleport, efValue = None, statusEffect = None, areaOfEffect = None\<rparr>,
        \<lparr>efType = Damage, efValue = Some 40, statusEffect = None, areaOfEffect = Some 1\<rparr>],
     mkAbility ''knight_rally'' ''Battle Cry'' 40 6 2 AOE 5
       [\<lparr>efType = Buff, efValue = None,
         statusEffect = Some (mkStatus ''battle_cry'' ''Battle Cry'' BUFF 4 5),
         areaOfEffect = Some 2\<rparr>],
     mkAbility ''bishop_heal'' ''Divine Light'' 35 4 8 ALLY 1
       [\<lparr>efType = Heal, efValue = Some 50, statusEffect = None, areaOfEffect = None\<rparr>],
     mkAbility ''bishop_smite'' ''Holy Smite'' 45 5 8 ENEMY 4
       [\<lparr>efType = Damage, efValue = Some 60, statusEffect = None, areaOfEffect = None\<rparr>],
     mkAbility ''rook_barrage'' ''Artillery Barrage'' 40 5 8 ANY_SQUARE 1
       [\<lparr>efType = Damage, efValue = Some 35, statusEffect = None, areaOfEffect = None\<rparr>],
     mkAbility ''rook_fortress'' ''Mobile Fortress'' 50 8 0 SELF 6
       [\<lparr>efType = Buff, efValue = None,
         statusEffect = Some (mkStatus ''fortress_mode'' ''Fortress Mode'' BUFF 5 10),
         areaOfEffect = None\<rparr>],
     mkAbility ''queen_teleport'' ''Royal Decree'' 50 6 8 ALLY 1
       [\<lparr>efType = Teleport, efValue = None, statusEffect = None, areaOfEffect = None\<rparr>],
     mkAbility ''queen_dominate'' ''Mind Control'' 80 10 5 ENEMY 8
       [\<lparr>efType = Debuff, efValue = None,
         statusEffect = Some (mkStatus ''mind_control'' ''Mind Control'' DEBUFF 2 0),
         areaOfEffect = None\<rparr>],
     mkAbility ''king_inspire'' ''Royal Inspiration'' 60 8 0 AOE 1
       [\<lparr>efType = Buff, efValue = None,
         statusEffect = Some (mkStatus ''royal_inspiration'' ''Royal Inspiration'' BUFF 5 3),
         areaOfEffect = Some 8\<rparr>],
     mkAbility ''king_sanctuary'' ''Divine Sanctuary'' 100 12 3 EMPTY_SQUARE 10
       [\<lparr>efType = Heal, efValue = Some 15, statusEffect = None, areaOfEffect = Some 1\<rparr>]]"

fun abilitiesOf :: "PieceType \<Rightarrow> nat list" where
  "abilitiesOf PAWN = [0, 1]"
| "abilitiesOf KNIGHT = [2, 3]"
| "abilitiesOf BISHOP = [4, 5]"
| "abilitiesOf ROOK = [6, 7]"
| "abilitiesOf QUEEN = [8, 9]"
| "abilitiesOf KING = [10, 11]"

section \<open>Game store (gameStore.ts)\<close>

definition createPiece :: "string \<Rightarrow> PieceType \<Rightarrow> Team \<Rightarrow> Position \<Rightarrow> Piece" where
  "createPiece i ty tm pos =
    (let baseStats = DEFAULT_PIECE_STATS ty
     in \<lparr>pieceId = i, ptype = ty, team = tm, position = pos,
         stats = baseStats\<lparr>currentHp := maxHp baseStats, currentMana := maxMana baseStats\<rparr>,
         hasMoved = False, isAlive = True, level = 1, abilities = abilitiesOf ty,
         statusEffects = []\<rparr>)"

text \<open>The store before any piece is created: the ability objects, and no piece.\<close>

definition emptyHeap :: Heap where
  "emptyHeap = \<lparr>pieces = (\<lambda>r. createPiece [] PAWN WHITE (0, 0)),
                abils = (\<lambda>a. PIECE_ABILITIES ! (if a < 12 then a else 0)),
                nextRef = 0\<rparr>"

definition emptyBoard :: RefBoard where
  "emptyBoard = replicate 8 (replicate 8 None)"

text \<open>Allocate a piece and put it on its square.\<close>

definition putPiece :: "Piece \<Rightarrow> RefBoard \<times> Heap \<Rightarrow> RefBoard \<times> Heap" where
  "putPiece p bh = (let (r, h1) = newPiece p (snd bh) in (setCell (fst bh) (position p) (Some r), h1))"

definition pieceOrder :: "PieceType list" where
  "pieceOrder = [ROOK, KNIGHT, BISHOP, QUEEN, KING, BISHOP, KNIGHT, ROOK]"

definition createInitialBoard :: "Heap \<Rightarrow> RefBoard \<times> Heap" where
  "createInitialBoard h =
    (let pawns = fold (\<lambda>x bh.
           putPiece (createPiece (''white-pawn-'' @ showInt x) PAWN WHITE (x, 6))
             (putPiece (createPiece (''black-pawn-'' @ showInt x) PAWN BLACK (x, 1)) bh))
           [0..7] (emptyBoard, h)
     in fold (\<lambda>x bh.
           (let ty = pieceOrder ! nat x
            in putPiece (createPiece (''white-'' @ typeName ty @ ''-'' @ showInt x) ty WHITE (x, 7))
                 (putPiece (createPiece (''black-'' @ typeName ty @ ''-'' @ showInt x) ty BLACK (x, 0)) bh)))
           [0..7] pawns)"

datatype GameState = MENU | PLAYING | PAUSED | ABILITY_TARGETING | ANIMATING | GAME_OVER

text \<open>
  A move record. \<open>mvPiece\<close> and \<open>capturedPiece\<close> are the shallow copies \<open>{...piece}\<close>
  taken before the move; a copy shares the \<open>stats\<close> object of its original.
\<close>

record Move =
  mvFrom :: Position
  mvTo :: Position
  mvPiece :: Piece
  capturedPiece :: "Piece option"
  damage :: "int option"
  timestamp :: int

text \<open>
  The state of the store that the rules of the game read and write. The fields that
  only drive the display, the sound and the scheduling of the AI (\<open>activeEffects\<close>,
  \<open>gameMode\<close>, \<open>ai\<close>, \<open>isAIThinking\<close>) are left out, with the calls \<open>playSound\<close>,
  \<open>addEffect\<close> and \<open>setTimeout\<close> that use them.
\<close>

record GameStore =
  board :: RefBoard
  currentTurn :: Team
  selectedPiece :: "Position option"
  validMoves :: "Position list"
  highlightedSquares :: "Position list"
  gameState :: GameState
  winner :: "Team option"
  moveHistory :: "Move list"
  turnCount :: int

text \<open>
  \<open>row.map(f)\<close> over the rows of a board, for a callback that may allocate: \<open>null\<close>
  cells are passed through, as both callbacks of \<open>endTurn\<close> do.
\<close>

fun mapRow :: "(nat \<Rightarrow> Heap \<Rightarrow> nat \<times> Heap) \<Rightarrow> nat option list \<Rightarrow> Heap \<Rightarrow> nat option list \<times> Heap" where
  "mapRow f [] h = ([], h)"
| "mapRow f (None # cs) h = (let (cs', h') = mapRow f cs h in (None # cs', h'))"
| "mapRow f (Some r # cs) h =
    (let (r', h1) = f r h; (cs', h2) = mapRow f cs h1 in (Some r' # cs', h2))"

fun mapBoard :: "(nat \<Rightarrow> Heap \<Rightarrow> nat \<times> Heap) \<Rightarrow> RefBoard \<Rightarrow> Heap \<Rightarrow> RefBoard \<times> Heap" where
  "mapBoard f [] h = ([], h)"
| "mapBoard f (row # rows) h =
    (let (row', h1) = mapRow f row h; (rows', h2) = mapBoard f rows h1 in (row' # rows', h2))"

text \<open>The first callback of \<open>endTurn\<close>: mana regeneration for the team whose turn begins.\<close>

definition regenerate :: "Team \<Rightarrow> nat \<Rightarrow> Heap \<Rightarrow> nat \<times> Heap" where
  "regenerate newTurn r h =
    (let piece = pieces h r
     in if team piece = newTurn \<and> isAlive piece
        then (let newMana = min (maxMana (stats piece)) (currentMana (stats piece) + 10)
              in newPiece (piece\<lparr>stats := (stats piece)\<lparr>currentMana := newMana\<rparr>\<rparr>) h)
        else (r, h))"

text \<open>The second callback: the countdown of temporary hit points.\<close>

definition reduceTempHp :: "nat \<Rightarrow> Heap \<Rightarrow> nat \<times> Heap" where
  "reduceTempHp r h =
    (let piece = pieces h r
     in (case tempHpTurns (stats piece) of
           None \<Rightarrow> (r, h)
         | Some turns \<Rightarrow>
             (if turns \<noteq> 0 \<and> turns > 0
              then (let newTempHpTurns = turns - 1
                    in if newTempHpTurns \<le> 0
                       then newPiece (piece\<lparr>stats := (stats piece)\<lparr>tempHp := None, tempHpTurns := None\<rparr>\<rparr>) h
                       else newPiece (piece\<lparr>stats := (stats piece)\<lparr>tempHpTurns := Some newTempHpTurns\<rparr>\<rparr>) h)
              else (r, h))))"

definition endTurn :: "GameStore \<Rightarrow> Heap \<Rightarrow> GameStore \<times> Heap" where
  "endTurn st h =
    (let newTurn = (if currentTurn st = WHITE then BLACK else WHITE);
         (newBoard, h1) = mapBoard (regenerate newTurn) (board st) h;
         (updatedBoard, h2) = mapBoard reduceTempHp newBoard h1
     in (st\<lparr>board := updatedBoard, currentTurn := newTurn, turnCount := turnCount st + 1,
            selectedPiece := None, validMoves := [], highlightedSquares := []\<rparr>, h2))"

text \<open>
  \<open>executeCastling(king, to, board)\<close> on the board copy of \<open>movePiece\<close>: the rook is
  replaced by a new object on its new square.
\<close>

definition executeCastling :: "nat \<Rightarrow> Position \<Rightarrow> RefBoard \<Rightarrow> Heap \<Rightarrow> RefBoard \<times> Heap" where
  "executeCastling king to b h =
    (let kingPos = position (pieces h king);
         isKingside = (fst to > fst kingPos);
         rookFromX = (if isKingside then 7 else 0);
         rookToX = (if isKingside then 5 else 3)
     in (case cell b (rookFromX, snd kingPos) of
           None \<Rightarrow> (b, h)
         | Some rook \<Rightarrow>
             (let (rook', h1) = newPiece ((pieces h rook)\<lparr>position := (rookToX, snd kingPos),
                                                          hasMoved := True\<rparr>) h
              in (setCell (setCell b (rookToX, snd kingPos) (Some rook')) (rookFromX, snd kingPos) None,
                  h1))))"

text \<open>
  \<open>movePiece(from, to)\<close>; \<open>now\<close> is the value of \<open>Date.now()\<close>. The capture step is
  \<open>capture\<close>: it returns the board, the store and the move record after the
  \<open>if (targetPiece)\<close> block.
\<close>

definition capture :: "nat \<Rightarrow> nat option \<Rightarrow> Position \<Rightarrow> RefBoard \<Rightarrow> Heap \<Rightarrow> Move \<Rightarrow> RefBoard \<times> Heap \<times> Move" where
  "capture piece targetPiece to newBoard h move =
    (case targetPiece of
       None \<Rightarrow> (newBoard, h, move)
     | Some target \<Rightarrow>
         (let dmg = attackPower (stats (pieces h piece));
              newHp = currentHp (stats (pieces h target)) - dmg
          in if newHp \<le> 0
             then (setCell newBoard to None,
                   updPiece target (\<lambda>p. p\<lparr>isAlive := False\<rparr>) h,
                   move\<lparr>damage := Some dmg\<rparr>)
             else (newBoard,
                   updPiece target (\<lambda>p. p\<lparr>stats := (stats p)\<lparr>currentHp := newHp\<rparr>\<rparr>) h,
                   move\<lparr>damage := Some dmg,
                        capturedPiece := map_option
                          (\<lambda>c. c\<lparr>stats := (stats c)\<lparr>currentHp := newHp\<rparr>\<rparr>) (capturedPiece move)\<rparr>)))"

definition movePiece :: "Position \<Rightarrow> Position \<Rightarrow> int \<Rightarrow> GameStore \<Rightarrow> Heap \<Rightarrow> GameStore \<times> Heap" where
  "movePiece from to now st h =
    (case cell (board st) from of
       None \<Rightarrow> (st, h)
     | Some piece \<Rightarrow>
         (if \<not> isMoveValid (pieces h piece) to (deref h (board st)) then (st, h)
          else
            (let newBoard = board st;
                 targetPiece = cell newBoard to;
                 (board1, h1) = (if isCastlingMove (pieces h piece) to
                                 then executeCastling piece to newBoard h else (newBoard, h));
                 move = \<lparr>mvFrom = from, mvTo = to, mvPiece = pieces h1 piece,
                         capturedPiece = map_option (pieces h1) targetPiece,
                         damage = None, timestamp = now\<rparr>;
                 (board2, h2, move2) = capture piece targetPiece to board1 h1 move;
                 h3 = updPiece piece (\<lambda>p. p\<lparr>position := to, hasMoved := True\<rparr>) h2;
                 board3 = setCell (setCell board2 to (Some piece)) from None;
                 opposingTeam = (if currentTurn st = WHITE then BLACK else WHITE);
                 won = (if isCheckmate opposingTeam (deref h3 board3)
                        then Some (currentTurn st) else None)
             in endTurn
                  (st\<lparr>board := board3, selectedPiece := None, validMoves := [],
                      highlightedSquares := [], moveHistory := moveHistory st @ [move2],
                      winner := won,
                      gameState := (if won \<noteq> None then GAME_OVER else gameState st)\<rparr>)
                  h3)))"

section \<open>AI opponent (ChessAI)\<close>

text \<open>
  The AI reads boards and builds copies of pieces (\<open>{...piece, position: move.to}\<close>);
  it never writes to a piece object, so its functions are given on boards of piece
  values. Scores are rational numbers: the quotient \<open>currentHp / maxHp\<close> is exact here
  and a double in the source, the same number whenever it is representable (always when
  a piece has all its hit points). The search bounds also take the values \<open>-Infinity\<close>
  and \<open>Infinity\<close>.
\<close>

datatype xnum = MinusInfinity | Finite rat | PlusInfinity

fun xless :: "xnum \<Rightarrow> xnum \<Rightarrow> bool" where
  "xless MinusInfinity MinusInfinity = False"
| "xless MinusInfinity _ = True"
| "xless (Finite a) (Finite b) = (a < b)"
| "xless (Finite a) PlusInfinity = True"
| "xless (Finite a) MinusInfinity = False"
| "xless PlusInfinity _ = False"

definition xle :: "xnum \<Rightarrow> xnum \<Rightarrow> bool" where
  "xle a b = (a = b \<or> xless a b)"

definition xmax :: "xnum \<Rightarrow> xnum \<Rightarrow> xnum" where
  "xmax a b = (if xless a b then b else a)"

definition xmin :: "xnum \<Rightarrow> xnum \<Rightarrow> xnum" where
  "xmin a b = (if xless b a then b else a)"

record AIMove =
  amFrom :: Position
  amTo :: Position
  score :: rat
  amPiece :: Piece

record BoardEvaluation =
  evScore :: rat
  isGameOver :: bool
  evWinner :: "Team option"

fun PIECE_VALUES :: "PieceType \<Rightarrow> rat" where
  "PIECE_VALUES PAWN = 100"
| "PIECE_VALUES KNIGHT = 320"
| "PIECE_VALUES BISHOP = 330"
| "PIECE_VALUES ROOK = 500"
| "PIECE_VALUES QUEEN = 900"
| "PIECE_VALUES KING = 20000"

fun POSITION_BONUSES :: "PieceType \<Rightarrow> rat list list option" where
  "POSITION_BONUSES PAWN = Some
    [[0,  0,  0,  0,  0,  0,  0,  0],
     [50, 50, 50, 50, 50, 50, 50, 50],
     [10, 10, 20, 30, 30, 20, 10, 10],
     [5,  5, 10, 25, 25, 10,  5,  5],
     [0,  0,  0, 20, 20,  0,  0,  0],
     [5, -5,-10,  0,  0,-10, -5,  5],
     [5, 10, 10,-20,-20, 10, 10,  5],
     [0,  0,  0,  0,  0,  0,  0,  0]]"
| "POSITION_BONUSES KNIGHT = Some
    [[-50,-40,-30,-30,-30,-30,-40,-50],
     [-40,-20,  0,  0,  0,  0,-20,-40],
     [-30,  0, 10, 15, 15, 10,  0,-30],
     [-30,  5, 15, 20, 20, 15,  5,-30],
     [-30,  0, 15, 20, 20, 15,  0,-30],
     [-30,  5, 10, 15, 15, 10,  5,-30],
     [-40,-20,  0,  5,  5,  0,-20,-40],
     [-50,-40,-30,-30,-30,-30,-40,-50]]"
| "POSITION_BONUSES _ = None"

text \<open>\<open>bonusTable[adjustedY]?.[x] || 0\<close>: a missing row or entry counts 0.\<close>

definition getPositionBonus :: "Piece \<Rightarrow> int \<Rightarrow> int \<Rightarrow> rat" where
  "getPositionBonus piece x y =
    (case POSITION_BONUSES (ptype piece) of
       None \<Rightarrow> 0
     | Some bonusTable \<Rightarrow>
         (let adjustedY = (if team piece = WHITE then 7 - y else y)
          in if 0 \<le> adjustedY \<and> nat adjustedY < length bonusTable \<and> 0 \<le> x
                \<and> nat x < length (bonusTable ! nat adjustedY)
             then bonusTable ! nat adjustedY ! nat x else 0))"

definition getAllPossibleMoves :: "Board \<Rightarrow> Team \<Rightarrow> AIMove list" where
  "getAllPossibleMoves b targetTeam =
     concat (map (\<lambda>pos.
        (case cell b pos of
           None \<Rightarrow> []
         | Some piece \<Rightarrow>
             (if team piece = targetTeam \<and> isAlive piece
              then map (\<lambda>to. \<lparr>amFrom = position piece, amTo = to, score = 0, amPiece = piece\<rparr>)
                     (getValidMoves piece b)
              else []))) allSquares)"

text \<open>\<open>ChessRules.executeCastling\<close> on a board of piece values.\<close>

definition castleRook :: "Piece \<Rightarrow> Position \<Rightarrow> Board \<Rightarrow> Board" where
  "castleRook king to b =
    (let isKingside = (fst to > fst (position king));
         rookFromX = (if isKingside then 7 else 0);
         rookToX = (if isKingside then 5 else 3);
         ky = snd (position king)
     in (case cell b (rookFromX, ky) of
           None \<Rightarrow> b
         | Some rook \<Rightarrow>
             setCell (setCell b (rookToX, ky)
                        (Some (rook\<lparr>position := (rookToX, ky), hasMoved := True\<rparr>)))
               (rookFromX, ky) None))"

definition makeMove :: "Board \<Rightarrow> AIMove \<Rightarrow> Board" where
  "makeMove b move =
    (case cell b (amFrom move) of
       None \<Rightarrow> b
     | Some piece \<Rightarrow>
         (let b1 = (if isCastlingMove piece (amTo move) then castleRook piece (amTo move) b else b);
              movedPiece = piece\<lparr>position := amTo move, hasMoved := True\<rparr>
          in setCell (setCell b1 (amTo move) (Some movedPiece)) (amFrom move) None))"

definition evaluateKingSafety :: "Team \<Rightarrow> Board \<Rightarrow> rat" where
  "evaluateKingSafety aiTeam b =
     fold (\<lambda>pos sc.
        (case cell b pos of
           None \<Rightarrow> sc
         | Some piece \<Rightarrow>
             (if ptype piece = KING
              then (let safetyScore = (if isKingInCheck (team piece) b then -50 else 10)
                    in if team piece = aiTeam then sc + safetyScore else sc - safetyScore)
              else sc))) allSquares 0"

text \<open>The number of pawns of a team on the file \<open>x\<close>.\<close>

definition pawnsOnFile :: "Team \<Rightarrow> Board \<Rightarrow> int \<Rightarrow> nat" where
  "pawnsOnFile tm b x =
     length (filter (\<lambda>y. case cell b (x, y) of None \<Rightarrow> False
                          | Some piece \<Rightarrow> ptype piece = PAWN \<and> team piece = tm) [0..7])"

definition evaluatePawnStructure :: "Team \<Rightarrow> Board \<Rightarrow> rat" where
  "evaluatePawnStructure aiTeam b =
    (let sc = fold (\<lambda>x sc.
                (let w = pawnsOnFile WHITE b x;
                     k = pawnsOnFile BLACK b x;
                     sc1 = (if w > 1 then sc - 10 * (of_nat w - 1) else sc)
                 in if k > 1 then sc1 + 10 * (of_nat k - 1) else sc1)) [0..7] 0
     in if aiTeam = WHITE then sc else - sc)"

definition evaluateControl :: "Team \<Rightarrow> Board \<Rightarrow> rat" where
  "evaluateControl aiTeam b =
    (let whiteMoves = length (getAllPossibleMoves b WHITE);
         blackMoves = length (getAllPossibleMoves b BLACK);
         mobilityScore = (of_nat whiteMoves - of_nat blackMoves) * 2
     in if aiTeam = WHITE then mobilityScore else - mobilityScore)"

text \<open>
  The first loop of \<open>evaluateBoard\<close>: material, position and statistics of one living
  piece, added for White and subtracted for Black. Every piece carries \<open>stats\<close>, so the
  test \<open>if (piece.stats)\<close> always succeeds. The scores are rationals; with
  \<open>maxHp = 0\<close> the quotient is \<open>NaN\<close> or an infinity in the source and \<open>0\<close> here, and
  no property below evaluates a board with such a piece.
\<close>

definition pieceScore :: "Piece \<Rightarrow> int \<Rightarrow> int \<Rightarrow> rat" where
  "pieceScore piece x y =
    (let pieceValue = PIECE_VALUES (ptype piece);
         positionBonus = getPositionBonus piece x y;
         totalValue = pieceValue + positionBonus;
         hpRatio = of_int (currentHp (stats piece)) / of_int (maxHp (stats piece));
         statBonus = of_int (attackPower (stats piece) + defense (stats piece)) * hpRatio
     in if team piece = WHITE then totalValue + statBonus else - totalValue - statBonus)"

definition materialScore :: "Board \<Rightarrow> rat" where
  "materialScore b =
     fold (\<lambda>pos sc. case cell b pos of
                       None \<Rightarrow> sc
                     | Some piece \<Rightarrow> if isAlive piece then sc + pieceScore piece (fst pos) (snd pos) else sc)
       allSquares 0"

definition kingPresent :: "Team \<Rightarrow> Board \<Rightarrow> bool" where
  "kingPresent tm b =
     list_ex (\<lambda>pos. case cell b pos of None \<Rightarrow> False
                | Some piece \<Rightarrow> isAlive piece \<and> team piece = tm \<and> ptype piece = KING) allSquares"

definition evaluateBoard :: "Team \<Rightarrow> Board \<Rightarrow> BoardEvaluation" where
  "evaluateBoard aiTeam b =
    (let sc0 = materialScore b;
         (sc1, over, win) =
           (if \<not> kingPresent WHITE b then (sc0, True, Some BLACK)
            else if \<not> kingPresent BLACK b then (sc0, True, Some WHITE)
            else if isCheckmate WHITE b then (sc0 - 50000, True, Some BLACK)
            else if isCheckmate BLACK b then (sc0 + 50000, True, Some WHITE)
            else if isStalemate WHITE b \<or> isStalemate BLACK b then (0, True, None)
            else (sc0, False, None));
         sc2 = (if aiTeam = BLACK then - sc1 else sc1);
         sc3 = sc2 + evaluateKingSafety aiTeam b;
         sc4 = sc3 + evaluatePawnStructure aiTeam b;
         sc5 = sc4 + evaluateControl aiTeam b
     in \<lparr>evScore = sc5, isGameOver = over, evWinner = win\<rparr>)"

text \<open>
  The two loops over the moves of \<open>minimax\<close>: they carry \<open>alpha\<close>, \<open>beta\<close>, the best
  score so far and \<open>bestMove\<close> through the remaining moves. \<open>search\<close> is the recursive
  call \<open>this.minimax(newBoard, depth - 1, alpha, beta, ...)\<close>, whose result the loop
  binds to \<open>childMove\<close>.
\<close>

fun maxLoop :: "(Board \<Rightarrow> xnum \<Rightarrow> xnum \<Rightarrow> AIMove option) \<Rightarrow> Team \<Rightarrow> Board \<Rightarrow> AIMove list
    \<Rightarrow> xnum \<Rightarrow> xnum \<Rightarrow> xnum \<Rightarrow> AIMove option \<Rightarrow> AIMove option" where
  "maxLoop search aiTeam b [] alpha beta maxScore bestMove = bestMove"
| "maxLoop search aiTeam b (move # rest) alpha beta maxScore bestMove =
    (let newBoard = makeMove b move;
         childMove = search newBoard alpha beta;
         sc = evScore (evaluateBoard aiTeam newBoard);
         better = xless maxScore (Finite sc);
         maxScore1 = (if better then Finite sc else maxScore);
         bestMove1 = (if better then Some (move\<lparr>score := sc\<rparr>) else bestMove);
         alpha1 = xmax alpha (Finite sc)
     in if xle beta alpha1 then bestMove1
        else maxLoop search aiTeam b rest alpha1 beta maxScore1 bestMove1)"

fun minLoop :: "(Board \<Rightarrow> xnum \<Rightarrow> xnum \<Rightarrow> AIMove option) \<Rightarrow> Team \<Rightarrow> Board \<Rightarrow> AIMove list
    \<Rightarrow> xnum \<Rightarrow> xnum \<Rightarrow> xnum \<Rightarrow> AIMove option \<Rightarrow> AIMove option" where
  "minLoop search aiTeam b [] alpha beta minScore bestMove = bestMove"
| "minLoop search aiTeam b (move # rest) alpha beta minScore bestMove =
    (let newBoard = makeMove b move;
         childMove = search newBoard alpha beta;
         sc = evScore (evaluateBoard aiTeam newBoard);
         better = xless (Finite sc) minScore;
         minScore1 = (if better then Finite sc else minScore);
         bestMove1 = (if better then Some (move\<lparr>score := sc\<rparr>) else bestMove);
         beta1 = xmin beta (Finite sc)
     in if xle beta1 alpha then bestMove1
        else minLoop search aiTeam b rest alpha beta1 minScore1 bestMove1)"

text \<open>
  \<open>minimax(board, depth, alpha, beta, maximizing)\<close> of an AI that plays \<open>aiTeam\<close>. At
  depth 0 the source evaluates the board, drops the evaluation and returns \<open>null\<close>.
\<close>

fun minimax :: "Team \<Rightarrow> Board \<Rightarrow> nat \<Rightarrow> xnum \<Rightarrow> xnum \<Rightarrow> bool \<Rightarrow> AIMove option" where
  "minimax aiTeam b 0 alpha beta maximizing = None"
| "minimax aiTeam b (Suc d) alpha beta maximizing =
    (let currentTeam = (if maximizing then aiTeam else (if aiTeam = WHITE then BLACK else WHITE));
         moves = getAllPossibleMoves b currentTeam
     in if length moves = 0 then None
        else if maximizing
          then maxLoop (\<lambda>newBoard a bt. minimax aiTeam newBoard d a bt False)
                 aiTeam b moves alpha beta MinusInfinity None
          else minLoop (\<lambda>newBoard a bt. minimax aiTeam newBoard d a bt True)
                 aiTeam b moves alpha beta PlusInfinity None)"

text \<open>
  The value that the specification gives to a position searched \<open>depth\<close> plies deep:
  the static evaluation at a leaf (depth 0 or no move), otherwise the maximum of the
  children's values where the AI moves and the minimum where the opponent moves.
\<close>

fun backedUpValue :: "Team \<Rightarrow> Board \<Rightarrow> nat \<Rightarrow> bool \<Rightarrow> rat" where
  "backedUpValue aiTeam b 0 maximizing = evScore (evaluateBoard aiTeam b)"
| "backedUpValue aiTeam b (Suc d) maximizing =
    (case map (\<lambda>move. backedUpValue aiTeam (makeMove b move) d (\<not> maximizing))
            (getAllPossibleMoves b
               (if maximizing then aiTeam else (if aiTeam = WHITE then BLACK else WHITE))) of
       [] \<Rightarrow> evScore (evaluateBoard aiTeam b)
     | v # vs \<Rightarrow> if maximizing then fold max vs v else fold min vs v)"

text \<open>A search result whose score is the static evaluation of the board after its move.\<close>

definition staticScored :: "Team \<Rightarrow> Board \<Rightarrow> AIMove option \<Rightarrow> bool" where
  "staticScored aiTeam b r =
     (map_option score r = map_option (\<lambda>m. evScore (evaluateBoard aiTeam (makeMove b m))) r)"

section \<open>Store extension\<close>

text \<open>
  \<open>heapExt h h'\<close>: the store \<open>h'\<close> is \<open>h\<close> with new piece objects allocated; no
  object of \<open>h\<close> has changed.
\<close>

definition heapExt :: "Heap \<Rightarrow> Heap \<Rightarrow> bool" where
  "heapExt h h' = (nextRef h \<le> nextRef h' \<and> abils h' = abils h
     \<and> (\<forall>r. r < nextRef h \<longrightarrow> pieces h' r = pieces h r))"

section \<open>The range invariant of the statistics\<close>

definition statsInRange :: "Piece \<Rightarrow> bool" where
  "statsInRange p = (0 \<le> currentHp (stats p) \<and> currentHp (stats p) \<le> maxHp (stats p)
     \<and> 0 \<le> currentMana (stats p) \<and> currentMana (stats p) \<le> maxMana (stats p))"

text \<open>A cell that is empty or holds the address of an allocated piece with statistics in range.\<close>

definition cellInRange :: "Heap \<Rightarrow> nat option \<Rightarrow> bool" where
  "cellInRange h c = (case c of None \<Rightarrow> True
                      | Some r \<Rightarrow> r < nextRef h \<and> statsInRange (pieces h r))"

definition boardInRange :: "Heap \<Rightarrow> RefBoard \<Rightarrow> bool" where
  "boardInRange h b = list_all (cellInRange h) (concat b)"

text \<open>
  \<open>rangeKept h h'\<close>: the step from \<open>h\<close> to \<open>h'\<close> allocates nothing and leaves every
  piece object that was in range in range.
\<close>

definition rangeKept :: "Heap \<Rightarrow> Heap \<Rightarrow> bool" where
  "rangeKept h h' = (nextRef h' = nextRef h
     \<and> (\<forall>r. statsInRange (pieces h r) \<longrightarrow> statsInRange (pieces h' r)))"

text \<open>The magnitudes that the operations subtract or add are not negative.\<close>

definition attackNonNegative :: "Heap \<Rightarrow> RefBoard \<Rightarrow> bool" where
  "attackNonNegative h b =
     list_all (\<lambda>c. case c of None \<Rightarrow> True | Some r \<Rightarrow> 0 \<le> attackPower (stats (pieces h r)))
       (concat b)"

definition abilityNonNegative :: "Ability \<Rightarrow> bool" where
  "abilityNonNegative a = (0 \<le> manaCost a \<and> list_all (\<lambda>e. 0 \<le> effectValue e) (effects a))"

definition effectsNonNegative :: "Piece \<Rightarrow> bool" where
  "effectsNonNegative p = list_all (\<lambda>e. 0 \<le> seValue e) (statusEffects p)"

text \<open>A step of an ability: nothing leaves its range, and the board gains at most the caster.\<close>

definition execOk :: "nat \<Rightarrow> Exec \<Rightarrow> Exec \<Rightarrow> bool" where
  "execOk caster s s' = (rangeKept (xHeap s) (xHeap s')
     \<and> set (concat (xBoard s')) \<subseteq> insert None (insert (Some caster) (set (concat (xBoard s)))))"

section \<open>Board invariants\<close>

text \<open>
  The invariants of a board in play: it has eight rows of eight cells (\<open>wfBoard\<close>),
  every piece stands on the square that its \<open>position\<close> names, and a team has at most
  one king (every king of the team is the one that \<open>findKing\<close> finds).
\<close>

definition placedBoard :: "Board \<Rightarrow> bool" where
  "placedBoard b =
     list_all (\<lambda>pos. case cell b pos of None \<Rightarrow> True | Some p \<Rightarrow> position p = pos) allSquares"

definition singleKing :: "Team \<Rightarrow> Board \<Rightarrow> bool" where
  "singleKing tm b =
     list_all (\<lambda>pos. case cell b pos of
                        None \<Rightarrow> True
                      | Some p \<Rightarrow> ptype p = KING \<and> team p = tm \<longrightarrow> findKing tm b = Some pos)
       allSquares"

text \<open>A move of a piece as \<open>getAllPossibleMoves\<close> builds it.\<close>

definition moveOf :: "Piece \<Rightarrow> Position \<Rightarrow> AIMove" where
  "moveOf piece to = \<lparr>amFrom = position piece, amTo = to, score = 0, amPiece = piece\<rparr>"

section \<open>Scenarios\<close>

text \<open>Boards used as concrete inputs below, built by allocating pieces on an empty board.\<close>

definition newStore :: "RefBoard \<Rightarrow> Team \<Rightarrow> GameStore" where
  "newStore b tm = \<lparr>board = b, currentTurn = tm, selectedPiece = None, validMoves = [],
     highlightedSquares = [], gameState = PLAYING, winner = None, moveHistory = [], turnCount = 1\<rparr>"

text \<open>Black king in the corner, mated by the white queen that the white king protects.\<close>

definition mateScene :: "RefBoard \<times> Heap" where
  "mateScene =
     putPiece (createPiece ''black-king-4'' KING BLACK (0, 0))
       (putPiece (createPiece ''white-queen-3'' QUEEN WHITE (1, 1))
         (putPiece (createPiece ''white-king-4'' KING WHITE (2, 2)) (emptyBoard, emptyHeap)))"

definition mateBoard :: Board where
  "mateBoard = deref (snd mateScene) (fst mateScene)"

text \<open>Black king in the corner, not attacked, with every neighbour covered by the white queen.\<close>

definition staleScene :: "RefBoard \<times> Heap" where
  "staleScene =
     putPiece (createPiece ''black-king-4'' KING BLACK (0, 0))
       (putPiece (createPiece ''white-queen-3'' QUEEN WHITE (2, 1))
         (putPiece (createPiece ''white-king-4'' KING WHITE (7, 7)) (emptyBoard, emptyHeap)))"

definition staleBoard :: Board where
  "staleBoard = deref (snd staleScene) (fst staleScene)"

text \<open>
  A white queen (address 2, attack power 40) next to a black pawn (address 3, 50 hit
  points, defense 5) that it can capture; White is to move.
\<close>

definition captureScene :: "RefBoard \<times> Heap" where
  "captureScene =
     putPiece (createPiece ''black-king-4'' KING BLACK (4, 0))
       (putPiece (createPiece ''black-pawn-0'' PAWN BLACK (0, 6))
         (putPiece (createPiece ''white-queen-3'' QUEEN WHITE (0, 7))
           (putPiece (createPiece ''white-pawn-1'' PAWN WHITE (1, 6))
             (putPiece (createPiece ''white-king-4'' KING WHITE (1, 7)) (emptyBoard, emptyHeap)))))"

definition captureStore :: GameStore where
  "captureStore = newStore (fst captureScene) WHITE"

text \<open>A white pawn (address 0) with 10 mana left; Shield Wall (ability 0) costs 20.\<close>

definition lowManaScene :: "RefBoard \<times> Heap" where
  "lowManaScene =
     putPiece ((createPiece ''white-pawn-0'' PAWN WHITE (0, 6))
                 \<lparr>stats := (DEFAULT_PIECE_STATS PAWN)\<lparr>currentMana := 10\<rparr>\<rparr>)
       (emptyBoard, emptyHeap)"

text \<open>
  A white rook (address 0, 100 mana) and a black pawn (address 1, 50 hit points,
  defense 5) on its file; Artillery Barrage is ability 6.
\<close>

definition barrageScene :: "RefBoard \<times> Heap" where
  "barrageScene =
     putPiece (createPiece ''black-pawn-0'' PAWN BLACK (0, 1))
       (putPiece (createPiece ''white-rook-0'' ROOK WHITE (0, 7)) (emptyBoard, emptyHeap))"

text \<open>
  A black pawn that carries a buff with one turn left and a damage-over-time effect of
  5 with two turns left.
\<close>

definition statusScene :: "RefBoard \<times> Heap" where
  "statusScene =
     putPiece ((createPiece ''black-pawn-0'' PAWN BLACK (0, 1))
                 \<lparr>statusEffects := [mkStatus ''shield_wall'' ''Shield Wall'' BUFF 1 2,
                                    mkStatus ''poison'' ''Poison'' DOT 2 5]\<rparr>)
       (emptyBoard, emptyHeap)"

text \<open>
  White king (address 0) and both white rooks on their home squares, none of them
  moved, with the squares between them empty, and the black king on its home square.
\<close>

definition castleScene :: "RefBoard \<times> Heap" where
  "castleScene =
     putPiece (createPiece ''black-king-4'' KING BLACK (4, 0))
       (putPiece (createPiece ''white-rook-0'' ROOK WHITE (0, 7))
         (putPiece (createPiece ''white-rook-7'' ROOK WHITE (7, 7))
           (putPiece (createPiece ''white-king-4'' KING WHITE (4, 7)) (emptyBoard, emptyHeap))))"

definition castleBoard :: Board where
  "castleBoard = deref (snd castleScene) (fst castleScene)"

definition castleKing :: Piece where
  "castleKing = pieces (snd castleScene) 0"

section \<open>Lemmas: squares and scanning loops\<close>

lemma set_allSquares: "set allSquares = {pos. isValidPosition pos}"
proof -
  have "set allSquares = (\<Union>y\<in>{0..7}. (\<lambda>x. (x, y)) ` {0..7})"
    unfolding allSquares_def by (simp only: set_concat set_map set_upto image_image)
  also have "\<dots> = {pos. isValidPosition pos}"
    by (fastforce simp: isValidPosition_def image_iff)
  finally show ?thesis .
qed

lemma hasLegalMove_iff:
  "hasLegalMove tm b \<longleftrightarrow>
     (\<exists>pos piece. isValidPosition pos \<and> cell b pos = Some piece \<and> team piece = tm
        \<and> isAlive piece \<and> getValidMoves piece b \<noteq> [])"
  unfolding hasLegalMove_def list_ex_iff set_allSquares
  by (fastforce split: option.splits)

section \<open>Lemmas: allocation never changes an existing object\<close>

lemma heapExt_refl: "heapExt h h"
  by (simp add: heapExt_def)

lemma heapExt_trans: "heapExt h1 h2 \<Longrightarrow> heapExt h2 h3 \<Longrightarrow> heapExt h1 h3"
  by (auto simp: heapExt_def)

lemma newPiece_ext: "heapExt h (snd (newPiece p h))"
  by (simp add: heapExt_def newPiece_def)

lemma regenerate_ext: "heapExt h (snd (regenerate tm r h))"
  by (simp add: regenerate_def Let_def newPiece_ext heapExt_refl)

lemma reduceTempHp_ext: "heapExt h (snd (reduceTempHp r h))"
  by (simp add: reduceTempHp_def Let_def newPiece_ext heapExt_refl split: option.splits)

lemma mapRow_ext:
  assumes "\<And>r h. heapExt h (snd (f r h))"
  shows "heapExt h (snd (mapRow f row h))"
proof (induction row arbitrary: h)
  case Nil
  then show ?case by (simp add: heapExt_refl)
next
  case (Cons c cs)
  show ?case
  proof (cases c)
    case None
    then show ?thesis using Cons.IH [of h] by (simp add: split_beta)
  next
    case (Some r)
    have a: "heapExt h (snd (f r h))" by (rule assms)
    have b: "heapExt (snd (f r h)) (snd (mapRow f cs (snd (f r h))))"
      by (rule Cons.IH)
    show ?thesis using heapExt_trans [OF a b] Some by (simp add: split_beta)
  qed
qed

lemma mapBoard_ext:
  assumes "\<And>r h. heapExt h (snd (f r h))"
  shows "heapExt h (snd (mapBoard f b h))"
proof (induction b arbitrary: h)
  case Nil
  then show ?case by (simp add: heapExt_refl)
next
  case (Cons row rows)
  have a: "heapExt h (snd (mapRow f row h))" by (rule mapRow_ext [OF assms])
  have b: "heapExt (snd (mapRow f row h)) (snd (mapBoard f rows (snd (mapRow f row h))))"
    by (rule Cons.IH)
  show ?case using heapExt_trans [OF a b] by (simp add: split_beta)
qed

lemma endTurn_ext: "heapExt h (snd (endTurn st h))"
proof -
  let ?t = "if currentTurn st = WHITE then BLACK else WHITE"
  let ?r1 = "mapBoard (regenerate ?t) (board st) h"
  have a: "heapExt h (snd ?r1)" by (rule mapBoard_ext [OF regenerate_ext])
  have b: "heapExt (snd ?r1) (snd (mapBoard reduceTempHp (fst ?r1) (snd ?r1)))"
    by (rule mapBoard_ext [OF reduceTempHp_ext])
  show ?thesis using heapExt_trans [OF a b] by (simp add: endTurn_def Let_def split_beta)
qed

lemma endTurn_fields:
  "moveHistory (fst (endTurn st h)) = moveHistory st \<and> winner (fst (endTurn st h)) = winner st
   \<and> gameState (fst (endTurn st h)) = gameState st
   \<and> currentTurn (fst (endTurn st h)) = (if currentTurn st = WHITE then BLACK else WHITE)
   \<and> turnCount (fst (endTurn st h)) = turnCount st + 1"
  by (simp add: endTurn_def Let_def split_beta)

section \<open>Lemmas: the capture scenario\<close>

text \<open>
  The queen of \<open>captureScene\<close> captures the pawn: the recorded damage, the pawn object
  afterwards, the occupant of the target square, and whether the pawn is still on some
  square of the board.
\<close>

lemma capture_scene_outcome:
  "(case movePiece (0, 7) (0, 6) 0 captureStore (snd captureScene) of (st, h) \<Rightarrow>
      (damage (last (moveHistory st)), currentHp (stats (pieces h 3)), isAlive (pieces h 3),
       cell (board st) (0, 6), list_ex (\<lambda>pos. cell (board st) pos = Some 3) allSquares))
    = (Some 40, 10, True, Some 2, False)"
  by code_simp

lemma capture_scene_input:
  "cell (board captureStore) (0, 7) = Some 2 \<and> cell (board captureStore) (0, 6) = Some 3 \<and>
   ptype (pieces (snd captureScene) 2) = QUEEN \<and>
   attackPower (stats (pieces (snd captureScene) 2)) = 40 \<and>
   ptype (pieces (snd captureScene) 3) = PAWN \<and>
   defense (stats (pieces (snd captureScene) 3)) = 5 \<and>
   currentHp (stats (pieces (snd captureScene) 3)) = 50 \<and>
   isAlive (pieces (snd captureScene) 3) \<and> 3 < nextRef (snd captureScene)"
  by code_simp

section \<open>Lemmas: the search loops\<close>

lemma makeMove_score: "makeMove b (move\<lparr>score := sc\<rparr>) = makeMove b move"
  by (simp add: makeMove_def Let_def split: option.splits)

lemma maxLoop_search_irrelevant:
  "maxLoop s1 aiTeam b moves alpha beta maxScore bestMove =
   maxLoop s2 aiTeam b moves alpha beta maxScore bestMove"
  by (induction moves arbitrary: alpha maxScore bestMove) (simp_all add: Let_def)

lemma minLoop_search_irrelevant:
  "minLoop s1 aiTeam b moves alpha beta minScore bestMove =
   minLoop s2 aiTeam b moves alpha beta minScore bestMove"
  by (induction moves arbitrary: beta minScore bestMove) (simp_all add: Let_def)

lemma maxLoop_static:
  "staticScored aiTeam b bestMove \<Longrightarrow>
   staticScored aiTeam b (maxLoop s aiTeam b moves alpha beta maxScore bestMove)"
  by (induction moves arbitrary: alpha maxScore bestMove)
     (simp_all add: Let_def staticScored_def makeMove_score)

lemma minLoop_static:
  "staticScored aiTeam b bestMove \<Longrightarrow>
   staticScored aiTeam b (minLoop s aiTeam b moves alpha beta minScore bestMove)"
  by (induction moves arbitrary: beta minScore bestMove)
     (simp_all add: Let_def staticScored_def makeMove_score)

section \<open>Lemmas: the range invariant\<close>

lemma setCell_cells: "set (concat (setCell b pos v)) \<subseteq> insert v (set (concat b))"
proof (cases "inGrid b pos")
  case False
  then show ?thesis by (auto simp: setCell_def)
next
  case True
  let ?i = "nat (snd pos)" and ?j = "nat (fst pos)"
  have i: "?i < length b" using True by (simp add: inGrid_def)
  have "set (b[?i := (b ! ?i)[?j := v]]) \<subseteq> insert ((b ! ?i)[?j := v]) (set b)"
    by (rule set_update_subset_insert)
  moreover have "set ((b ! ?i)[?j := v]) \<subseteq> insert v (set (b ! ?i))"
    by (rule set_update_subset_insert)
  moreover have "b ! ?i \<in> set b" using i by simp
  ultimately show ?thesis using True by (fastforce simp: setCell_def)
qed

lemma boardInRange_iff:
  "boardInRange h b \<longleftrightarrow> (\<forall>c \<in> set (concat b). cellInRange h c)"
  by (simp add: boardInRange_def list_all_iff)

lemma cellInRange_ext: "heapExt h h' \<Longrightarrow> cellInRange h c \<Longrightarrow> cellInRange h' c"
  by (auto simp: heapExt_def cellInRange_def split: option.splits)

lemma mapRow_inRange:
  assumes f: "\<And>r h. cellInRange h (Some r) \<Longrightarrow>
                heapExt h (snd (f r h)) \<and> cellInRange (snd (f r h)) (Some (fst (f r h)))"
  shows "list_all (cellInRange h) row \<Longrightarrow>
         heapExt h (snd (mapRow f row h)) \<and>
         list_all (cellInRange (snd (mapRow f row h))) (fst (mapRow f row h))"
proof (induction row arbitrary: h)
  case Nil
  then show ?case by (simp add: heapExt_refl)
next
  case (Cons c cs)
  show ?case
  proof (cases c)
    case None
    then show ?thesis using Cons.IH [of h] Cons.prems by (simp add: split_beta cellInRange_def)
  next
    case (Some r)
    let ?h1 = "snd (f r h)" and ?r1 = "fst (f r h)"
    have c: "cellInRange h (Some r)" using Cons.prems Some by simp
    have a: "heapExt h ?h1" and g: "cellInRange ?h1 (Some ?r1)" using f [OF c] by simp_all
    have "list_all (cellInRange ?h1) cs"
      using Cons.prems a by (auto simp: list_all_iff intro: cellInRange_ext)
    from Cons.IH [OF this]
    have b: "heapExt ?h1 (snd (mapRow f cs ?h1))"
      and r: "list_all (cellInRange (snd (mapRow f cs ?h1))) (fst (mapRow f cs ?h1))" by simp_all
    have "cellInRange (snd (mapRow f cs ?h1)) (Some ?r1)" using cellInRange_ext [OF b g] .
    then show ?thesis using heapExt_trans [OF a b] r Some by (simp add: split_beta)
  qed
qed

lemma mapBoard_inRange:
  assumes f: "\<And>r h. cellInRange h (Some r) \<Longrightarrow>
                heapExt h (snd (f r h)) \<and> cellInRange (snd (f r h)) (Some (fst (f r h)))"
  shows "boardInRange h b \<Longrightarrow>
         heapExt h (snd (mapBoard f b h)) \<and> boardInRange (snd (mapBoard f b h)) (fst (mapBoard f b h))"
proof (induction b arbitrary: h)
  case Nil
  then show ?case by (simp add: heapExt_refl boardInRange_def)
next
  case (Cons row rows)
  let ?h1 = "snd (mapRow f row h)" and ?row1 = "fst (mapRow f row h)"
  have "list_all (cellInRange h) row" using Cons.prems by (simp add: boardInRange_def)
  from mapRow_inRange [of f, OF f this]
  have a: "heapExt h ?h1" and g: "list_all (cellInRange ?h1) ?row1" by simp_all
  have "boardInRange ?h1 rows"
    using Cons.prems a by (auto simp: boardInRange_def list_all_iff intro: cellInRange_ext)
  from Cons.IH [OF this]
  have b: "heapExt ?h1 (snd (mapBoard f rows ?h1))"
    and r: "boardInRange (snd (mapBoard f rows ?h1)) (fst (mapBoard f rows ?h1))" by simp_all
  have "list_all (cellInRange (snd (mapBoard f rows ?h1))) ?row1"
    using g b by (auto simp: list_all_iff intro: cellInRange_ext)
  then show ?case using heapExt_trans [OF a b] r by (simp add: split_beta boardInRange_def)
qed

lemma regenerate_inRange:
  "cellInRange h (Some r) \<Longrightarrow>
   heapExt h (snd (regenerate tm r h)) \<and> cellInRange (snd (regenerate tm r h)) (Some (fst (regenerate tm r h)))"
  by (auto simp: regenerate_def Let_def newPiece_def heapExt_def cellInRange_def statsInRange_def)

lemma reduceTempHp_inRange:
  "cellInRange h (Some r) \<Longrightarrow>
   heapExt h (snd (reduceTempHp r h)) \<and> cellInRange (snd (reduceTempHp r h)) (Some (fst (reduceTempHp r h)))"
  by (auto simp: reduceTempHp_def Let_def newPiece_def heapExt_def cellInRange_def statsInRange_def
           split: option.splits)

lemma endTurn_inRange:
  assumes "boardInRange h (board st)"
  shows "boardInRange (snd (endTurn st h)) (board (fst (endTurn st h)))"
proof -
  let ?t = "if currentTurn st = WHITE then BLACK else WHITE"
  let ?r1 = "mapBoard (regenerate ?t) (board st) h"
  have a: "boardInRange (snd ?r1) (fst ?r1)"
    using mapBoard_inRange [of "regenerate ?t" h "board st", OF regenerate_inRange assms] by simp
  have "boardInRange (snd (mapBoard reduceTempHp (fst ?r1) (snd ?r1)))
          (fst (mapBoard reduceTempHp (fst ?r1) (snd ?r1)))"
    using mapBoard_inRange [of reduceTempHp "snd ?r1" "fst ?r1", OF reduceTempHp_inRange a] by simp
  then show ?thesis by (simp add: endTurn_def Let_def split_beta)
qed

lemma rangeKept_refl: "rangeKept h h"
  by (simp add: rangeKept_def)

lemma rangeKept_trans: "rangeKept h1 h2 \<Longrightarrow> rangeKept h2 h3 \<Longrightarrow> rangeKept h1 h3"
  by (simp add: rangeKept_def)

lemma rangeKept_updPiece:
  "(statsInRange (pieces h r) \<Longrightarrow> statsInRange (f (pieces h r))) \<Longrightarrow> rangeKept h (updPiece r f h)"
  by (simp add: rangeKept_def updPiece_def)

lemma rangeKept_updAbility: "rangeKept h (updAbility a f h)"
  by (simp add: rangeKept_def updAbility_def)

lemma cellInRange_kept: "rangeKept h h' \<Longrightarrow> cellInRange h c \<Longrightarrow> cellInRange h' c"
  by (auto simp: rangeKept_def cellInRange_def split: option.splits)

lemma execOk_refl: "execOk caster s s"
  by (auto simp: execOk_def rangeKept_refl)

lemma execOk_trans: "execOk caster s1 s2 \<Longrightarrow> execOk caster s2 s3 \<Longrightarrow> execOk caster s1 s3"
  unfolding execOk_def using rangeKept_trans by blast

lemma fold_execOk:
  assumes "\<And>x s. x \<in> set xs \<Longrightarrow> execOk caster s (f x s)"
  shows "execOk caster s (fold f xs s)"
  using assms
proof (induction xs arbitrary: s)
  case Nil
  then show ?case by (simp add: execOk_refl)
next
  case (Cons x xs)
  have a: "execOk caster s (f x s)" using Cons.prems by simp
  have b: "execOk caster (f x s) (fold f xs (f x s))" using Cons by simp
  show ?case using execOk_trans [OF a b] by simp
qed

lemma damageTarget_ok: "execOk caster s (damageTarget caster effect target s)"
proof -
  have cells: "set (concat (setCell (xBoard s) pos None)) \<subseteq> insert None (insert (Some caster) (set (concat (xBoard s))))" for pos
    using setCell_cells [of "xBoard s" pos None] by auto
  show ?thesis
    unfolding damageTarget_def Let_def execOk_def
    using cells
    by (auto simp: rangeKept_def updPiece_def statsInRange_def)
qed

lemma healTarget_ok:
  "0 \<le> effectValue effect \<Longrightarrow> execOk caster s (healTarget caster effect target s)"
  unfolding healTarget_def Let_def execOk_def
  by (auto simp: rangeKept_def updPiece_def statsInRange_def)

lemma statusTarget_ok: "execOk caster s (statusTarget caster effect target s)"
  unfolding statusTarget_def Let_def execOk_def
  by (auto simp: rangeKept_def updPiece_def statsInRange_def split: option.splits)

lemma teleport_ok: "execOk caster s (executeTeleportEffect caster effect targetPos s)"
proof -
  have "set (concat (setCell (setCell (xBoard s) p None) q (Some caster)))
          \<subseteq> insert None (insert (Some caster) (set (concat (xBoard s))))" for p q
    using setCell_cells [of "setCell (xBoard s) p None" q "Some caster"]
          setCell_cells [of "xBoard s" p None] by auto
  then show ?thesis
    unfolding executeTeleportEffect_def Let_def execOk_def
    by (auto simp: rangeKept_def updPiece_def statsInRange_def)
qed

lemma executeEffect_ok:
  "0 \<le> effectValue effect \<Longrightarrow> execOk caster s (executeEffect caster targetPos effect s)"
  unfolding executeEffect_def executeDamageEffect_def executeHealEffect_def executeStatusEffect_def
  by (cases "efType effect")
     (auto intro!: fold_execOk damageTarget_ok healTarget_ok statusTarget_ok teleport_ok execOk_refl)

lemma executeAbility_inRange:
  assumes b: "boardInRange h b"
    and c: "cellInRange h (Some caster)"
    and nn: "abilityNonNegative (abils h ability)"
  shows "boardInRange (snd (executeAbility caster ability targetPos b h))
           (resultBoard (fst (executeAbility caster ability targetPos b h)))"
proof (cases "fst (canUseAbility (pieces h caster) (abils h ability))")
  case False
  then show ?thesis using b by (simp add: executeAbility_def Let_def)
next
  case True
  define h1 where "h1 = updPiece caster (\<lambda>p. p\<lparr>stats := (stats p)\<lparr>currentMana :=
                      currentMana (stats p) - manaCost (abils h ability)\<rparr>\<rparr>) h"
  define h2 where "h2 = updAbility ability (\<lambda>a. a\<lparr>currentCooldown := Some (cooldown a)\<rparr>) h1"
  define s0 where "s0 = \<lparr>xBoard = b, xHeap = h2, xMessages = [], xAffected = []\<rparr>"
  define s where "s = fold (executeEffect caster targetPos) (effects (abils h2 ability)) s0"
  have mana: "\<not> currentMana (stats (pieces h caster)) < manaCost (abils h ability)"
    using True by (auto simp: canUseAbility_def split: if_splits)
  have k1: "rangeKept h h1"
    unfolding h1_def using mana nn
    by (intro rangeKept_updPiece) (auto simp: statsInRange_def abilityNonNegative_def)
  have k2: "rangeKept h1 h2" unfolding h2_def by (rule rangeKept_updAbility)
  have efs: "effects (abils h2 ability) = effects (abils h ability)"
    by (simp add: h2_def h1_def updAbility_def updPiece_def)
  have "execOk caster s0 s"
    unfolding s_def
    using nn by (intro fold_execOk executeEffect_ok) (auto simp: efs abilityNonNegative_def list_all_iff)
  then have k3: "rangeKept h2 (xHeap s)"
    and cells: "set (concat (xBoard s)) \<subseteq> insert None (insert (Some caster) (set (concat b)))"
    by (simp_all add: execOk_def s0_def)
  have kept: "rangeKept h (xHeap s)" using rangeKept_trans [OF rangeKept_trans [OF k1 k2] k3] .
  have "cellInRange (xHeap s) cl" if "cl \<in> set (concat (xBoard s))" for cl
  proof -
    have "cl = None \<or> cl = Some caster \<or> cl \<in> set (concat b)" using that cells by auto
    then have "cellInRange h cl" using b c by (auto simp: boardInRange_iff cellInRange_def)
    then show ?thesis by (rule cellInRange_kept [OF kept])
  qed
  then have "boardInRange (xHeap s) (xBoard s)" by (simp add: boardInRange_iff)
  then show ?thesis using True
    by (simp add: executeAbility_def Let_def s_def s0_def h2_def h1_def)
qed

lemma cell_in_cells: "cell b pos = Some r \<Longrightarrow> Some r \<in> set (concat b)"
proof -
  assume a: "cell b pos = Some r"
  then have g: "inGrid b pos" by (simp add: cell_def split: if_splits)
  then have "b ! nat (snd pos) \<in> set b" and "b ! nat (snd pos) ! nat (fst pos) \<in> set (b ! nat (snd pos))"
    by (simp_all add: inGrid_def)
  then show ?thesis using a g by (auto simp: cell_def)
qed

lemma tickEffect_inRange:
  "statsInRange p \<Longrightarrow> 0 \<le> seValue e \<Longrightarrow> statsInRange (fst (tickEffect e p))"
  by (auto simp: tickEffect_def Let_def statsInRange_def split_beta)

lemma tickEffects_inRange:
  "statsInRange p \<Longrightarrow> list_all (\<lambda>e. 0 \<le> seValue e) es \<Longrightarrow> statsInRange (fst (tickEffects es p))"
proof (induction es arbitrary: p)
  case Nil
  then show ?case by simp
next
  case (Cons e es)
  have "statsInRange (fst (tickEffect e p))" using Cons.prems by (simp add: tickEffect_inRange)
  then have "statsInRange (fst (tickEffects es (fst (tickEffect e p))))"
    using Cons by simp
  then show ?case by (simp add: split_beta)
qed

lemma processStatusEffects_inRange:
  assumes "boardInRange h b" and "effectsNonNegative (pieces h r)"
  shows "boardInRange (snd (processStatusEffects r h)) b"
proof -
  have "rangeKept h (snd (processStatusEffects r h))"
    unfolding processStatusEffects_def Let_def split_beta snd_conv
    using assms(2) tickEffects_inRange [of "pieces h r" "statusEffects (pieces h r)"]
    by (intro rangeKept_updPiece) (simp add: statsInRange_def effectsNonNegative_def)
  then show ?thesis using assms(1) cellInRange_kept unfolding boardInRange_iff by blast
qed

lemma executeCastling_inRange:
  assumes "boardInRange h b"
  shows "heapExt h (snd (executeCastling king to b h))
       \<and> boardInRange (snd (executeCastling king to b h)) (fst (executeCastling king to b h))"
proof -
  let ?kp = "position (pieces h king)"
  let ?from = "((if fst ?kp < fst to then 7 else 0), snd ?kp)"
  let ?to = "((if fst ?kp < fst to then 5 else 3), snd ?kp)"
  show ?thesis
  proof (cases "cell b ?from")
    case None
    then show ?thesis using assms by (simp add: executeCastling_def Let_def heapExt_refl)
  next
    case (Some rook)
    let ?p = "(pieces h rook)\<lparr>position := ?to, hasMoved := True\<rparr>"
    let ?h1 = "snd (newPiece ?p h)"
    let ?b1 = "setCell (setCell b ?to (Some (nextRef h))) ?from None"
    have res: "executeCastling king to b h = (?b1, ?h1)"
      using Some by (simp add: executeCastling_def Let_def newPiece_def)
    have ext: "heapExt h ?h1" by (rule newPiece_ext)
    have rk: "cellInRange h (Some rook)"
      using cell_in_cells [OF Some] assms unfolding boardInRange_iff by blast
    then have new: "cellInRange ?h1 (Some (nextRef h))"
      by (simp add: cellInRange_def newPiece_def statsInRange_def)
    have s1: "set (concat ?b1) \<subseteq> insert None (set (concat (setCell b ?to (Some (nextRef h)))))"
      by (rule setCell_cells)
    have s2: "set (concat (setCell b ?to (Some (nextRef h)))) \<subseteq> insert (Some (nextRef h)) (set (concat b))"
      by (rule setCell_cells)
    have "cellInRange ?h1 cl" if "cl \<in> set (concat ?b1)" for cl
    proof -
      have "cl = None \<or> cl = Some (nextRef h) \<or> cl \<in> set (concat b)" using that s1 s2 by blast
      moreover have "cellInRange ?h1 None" by (simp add: cellInRange_def)
      moreover have "cl \<in> set (concat b) \<Longrightarrow> cellInRange ?h1 cl"
        using assms cellInRange_ext [OF ext] unfolding boardInRange_iff by blast
      ultimately show ?thesis using new by blast
    qed
    then have "boardInRange ?h1 ?b1" unfolding boardInRange_iff by blast
    then show ?thesis using ext res by simp
  qed
qed

lemma capture_inRange:
  assumes "0 \<le> attackPower (stats (pieces h piece))"
  shows "rangeKept h (fst (snd (capture piece targetPiece to b h move)))
       \<and> set (concat (fst (capture piece targetPiece to b h move))) \<subseteq> insert None (set (concat b))"
proof (cases targetPiece)
  case None
  then show ?thesis by (auto simp: capture_def rangeKept_refl)
next
  case (Some target)
  have "set (concat (setCell b to None)) \<subseteq> insert None (set (concat b))"
    by (rule setCell_cells)
  then show ?thesis using Some assms
    by (auto simp: capture_def Let_def rangeKept_def updPiece_def statsInRange_def)
qed

lemma movePiece_inRange:
  assumes inr: "boardInRange h (board st)" and att: "attackNonNegative h (board st)"
  shows "boardInRange (snd (movePiece from to now st h)) (board (fst (movePiece from to now st h)))"
proof (cases "cell (board st) from")
  case None
  then show ?thesis using inr by (simp add: movePiece_def)
next
  case (Some piece)
  show ?thesis
  proof (cases "isMoveValid (pieces h piece) to (deref h (board st))")
    case False
    then show ?thesis using Some inr by (simp add: movePiece_def)
  next
    case True
    define bh1 where "bh1 = (if isCastlingMove (pieces h piece) to
                             then executeCastling piece to (board st) h else (board st, h))"
    define move where "move = \<lparr>mvFrom = from, mvTo = to, mvPiece = pieces (snd bh1) piece,
                         capturedPiece = map_option (pieces (snd bh1)) (cell (board st) to),
                         damage = None, timestamp = now\<rparr>"
    define cap where "cap = capture piece (cell (board st) to) to (fst bh1) (snd bh1) move"
    define h3 where "h3 = updPiece piece (\<lambda>p. p\<lparr>position := to, hasMoved := True\<rparr>) (fst (snd cap))"
    define board3 where "board3 = setCell (setCell (fst cap) to (Some piece)) from None"
    have pc: "Some piece \<in> set (concat (board st))" by (rule cell_in_cells [OF Some])
    then have pr: "cellInRange h (Some piece)" using inr unfolding boardInRange_iff by blast
    have "case Some piece of None \<Rightarrow> True | Some r \<Rightarrow> 0 \<le> attackPower (stats (pieces h r))"
      using pc att unfolding attackNonNegative_def list_all_iff by blast
    then have pa: "0 \<le> attackPower (stats (pieces h piece))" by simp
    have e1: "heapExt h (snd bh1)" and r1: "boardInRange (snd bh1) (fst bh1)"
      using executeCastling_inRange [OF inr, of piece to] inr
      by (simp_all add: bh1_def heapExt_refl)
    have same: "pieces (snd bh1) piece = pieces h piece"
      using e1 pr by (simp add: heapExt_def cellInRange_def)
    have pr1: "cellInRange (snd bh1) (Some piece)" by (rule cellInRange_ext [OF e1 pr])
    have k2: "rangeKept (snd bh1) (fst (snd cap))"
      and c2: "set (concat (fst cap)) \<subseteq> insert None (set (concat (fst bh1)))"
      using capture_inRange [of "snd bh1" piece "cell (board st) to" to "fst bh1" move] pa same
      by (simp_all add: cap_def)
    have k3: "rangeKept (fst (snd cap)) h3"
      unfolding h3_def by (intro rangeKept_updPiece) (simp add: statsInRange_def)
    have kept: "rangeKept (snd bh1) h3" by (rule rangeKept_trans [OF k2 k3])
    have s1: "set (concat board3) \<subseteq> insert None (set (concat (setCell (fst cap) to (Some piece))))"
      unfolding board3_def by (rule setCell_cells)
    have s2: "set (concat (setCell (fst cap) to (Some piece))) \<subseteq> insert (Some piece) (set (concat (fst cap)))"
      by (rule setCell_cells)
    have "cellInRange h3 cl" if "cl \<in> set (concat board3)" for cl
    proof -
      have "cl = None \<or> cl = Some piece \<or> cl \<in> set (concat (fst bh1))"
        using that s1 s2 c2 by blast
      moreover have "cellInRange (snd bh1) None" by (simp add: cellInRange_def)
      moreover have "cl \<in> set (concat (fst bh1)) \<Longrightarrow> cellInRange (snd bh1) cl"
        using r1 unfolding boardInRange_iff by blast
      ultimately have "cellInRange (snd bh1) cl" using pr1 by blast
      then show ?thesis by (rule cellInRange_kept [OF kept])
    qed
    then have r3: "boardInRange h3 board3" unfolding boardInRange_iff by blast
    obtain st1 where mp: "movePiece from to now st h = endTurn st1 h3" and b1: "board st1 = board3"
      using Some True
      by (simp add: movePiece_def Let_def split_beta bh1_def move_def cap_def h3_def board3_def)
    show ?thesis using endTurn_inRange [of h3 st1] r3 b1 mp by simp
  qed
qed

section \<open>Lemmas: grids and rays\<close>

lemma inGrid_setCell: "inGrid (setCell b p v) q = inGrid b q"
  by (auto simp: inGrid_def setCell_def nth_list_update)

lemma cell_setCell: "cell (setCell b p v) q = (if p = q \<and> inGrid b p then v else cell b q)"
proof (cases "inGrid b p")
  case False
  then show ?thesis by (simp add: setCell_def)
next
  case True
  show ?thesis
  proof (cases "inGrid b q")
    case False
    then have "\<not> inGrid (setCell b p v) q" by (simp add: inGrid_setCell)
    then show ?thesis using False True by (auto simp: cell_def)
  next
    case q: True
    have eq: "p = q \<longleftrightarrow> nat (snd p) = nat (snd q) \<and> nat (fst p) = nat (fst q)"
      using True q by (auto simp: inGrid_def prod_eq_iff)
    show ?thesis
      using True q eq inGrid_setCell [of b p v q]
      by (auto simp: cell_def setCell_def inGrid_def nth_list_update)
  qed
qed

lemma inGrid_wf: "wfBoard b \<Longrightarrow> inGrid b pos = isValidPosition pos"
  by (auto simp: wfBoard_def inGrid_def isValidPosition_def)

lemma cell_valid: "wfBoard b \<Longrightarrow> cell b pos = Some p \<Longrightarrow> isValidPosition pos"
  using inGrid_wf [of b pos] by (auto simp: cell_def split: if_splits)

text \<open>The square number \<open>i\<close> of the ray of a piece in the direction \<open>d\<close>.\<close>

lemma rayMoves_index:
  "k \<in> set (rayMoves e b d is) \<Longrightarrow>
   \<exists>pre i post. is = pre @ i # post
     \<and> k = (fst (position e) + fst d * i, snd (position e) + snd d * i)
     \<and> (\<forall>j \<in> set pre. isValidPosition (fst (position e) + fst d * j, snd (position e) + snd d * j)
            \<and> cell b (fst (position e) + fst d * j, snd (position e) + snd d * j) = None)
     \<and> isValidPosition k
     \<and> (case cell b k of None \<Rightarrow> True | Some t \<Rightarrow> team t \<noteq> team e)"
proof (induction "is")
  case Nil
  then show ?case by simp
next
  case (Cons i rest)
  let ?pos = "(fst (position e) + fst d * i, snd (position e) + snd d * i)"
  show ?case
  proof (cases "k = ?pos")
    case True
    have "isValidPosition ?pos \<and> (case cell b ?pos of None \<Rightarrow> True | Some t \<Rightarrow> team t \<noteq> team e)"
      using Cons.prems True by (auto simp: Let_def split: if_splits option.splits)
    then show ?thesis using True by (intro exI [of _ "[]"] exI [of _ i] exI [of _ rest]) simp
  next
    case False
    then have v: "isValidPosition ?pos" and c: "cell b ?pos = None" and m: "k \<in> set (rayMoves e b d rest)"
      using Cons.prems by (auto simp: Let_def split: if_splits option.splits)
    from Cons.IH [OF m] obtain pre j post where
      "rest = pre @ j # post"
      "k = (fst (position e) + fst d * j, snd (position e) + snd d * j)"
      "\<forall>j \<in> set pre. isValidPosition (fst (position e) + fst d * j, snd (position e) + snd d * j)
            \<and> cell b (fst (position e) + fst d * j, snd (position e) + snd d * j) = None"
      "isValidPosition k"
      "case cell b k of None \<Rightarrow> True | Some t \<Rightarrow> team t \<noteq> team e"
      by blast
    then show ?thesis using v c
      by (intro exI [of _ "i # pre"] exI [of _ j] exI [of _ post]) simp
  qed
qed

lemma rayMoves_reach:
  assumes "\<forall>j \<in> set pre. isValidPosition (fst (position e) + fst d * j, snd (position e) + snd d * j)
            \<and> cell b (fst (position e) + fst d * j, snd (position e) + snd d * j) = None"
    and "isValidPosition (fst (position e) + fst d * i, snd (position e) + snd d * i)"
    and "case cell b (fst (position e) + fst d * i, snd (position e) + snd d * i) of
           None \<Rightarrow> True | Some t \<Rightarrow> team t \<noteq> team e"
  shows "(fst (position e) + fst d * i, snd (position e) + snd d * i)
           \<in> set (rayMoves e b d (pre @ i # post))"
  using assms by (induction pre) (auto simp: Let_def split: option.splits)

lemma upto_split_less:
  assumes "[m..n] = pre @ i # post" and "j \<in> set pre"
  shows "m \<le> j \<and> j < i"
proof -
  have s: "sorted (pre @ i # post)" and d: "distinct (pre @ i # post)"
    using assms(1) [symmetric] by simp_all
  have "j \<in> set [m..n]" using assms by simp
  then have "m \<le> j" by simp
  moreover have "j \<le> i" using s assms(2) by (auto simp: sorted_append)
  moreover have "j \<noteq> i" using d assms(2) by auto
  ultimately show ?thesis by simp
qed

lemma ray_transfer:
  assumes mem: "k \<in> set (rayMoves e A d [1..7])"
    and occ: "cell A k \<noteq> None"
    and same: "map_option team (cell S k) = map_option team (cell A k)"
    and empt: "\<And>i j. 1 \<le> j \<Longrightarrow> j < i
        \<Longrightarrow> k = (fst (position e) + fst d * i, snd (position e) + snd d * i)
        \<Longrightarrow> isValidPosition (fst (position e) + fst d * j, snd (position e) + snd d * j)
        \<Longrightarrow> cell A (fst (position e) + fst d * j, snd (position e) + snd d * j) = None
        \<Longrightarrow> cell S (fst (position e) + fst d * j, snd (position e) + snd d * j) = None"
  shows "k \<in> set (rayMoves e S d [1..7])"
proof -
  from rayMoves_index [OF mem] obtain pre i post where
    sp: "[1..7] = pre @ i # post"
    and k: "k = (fst (position e) + fst d * i, snd (position e) + snd d * i)"
    and pre: "\<forall>j \<in> set pre. isValidPosition (fst (position e) + fst d * j, snd (position e) + snd d * j)
            \<and> cell A (fst (position e) + fst d * j, snd (position e) + snd d * j) = None"
    and v: "isValidPosition k"
    and t: "case cell A k of None \<Rightarrow> True | Some t \<Rightarrow> team t \<noteq> team e"
    by blast
  have preS: "\<forall>j \<in> set pre. isValidPosition (fst (position e) + fst d * j, snd (position e) + snd d * j)
            \<and> cell S (fst (position e) + fst d * j, snd (position e) + snd d * j) = None"
  proof
    fix j assume j: "j \<in> set pre"
    have "1 \<le> j \<and> j < i" by (rule upto_split_less [OF sp j])
    then show "isValidPosition (fst (position e) + fst d * j, snd (position e) + snd d * j)
            \<and> cell S (fst (position e) + fst d * j, snd (position e) + snd d * j) = None"
      using empt [of j i] k pre j by auto
  qed
  have tS: "case cell S k of None \<Rightarrow> True | Some t \<Rightarrow> team t \<noteq> team e"
    using t occ same by (auto split: option.splits)
  show ?thesis
    using rayMoves_reach [of pre e d S i post] preS v tS k sp by simp
qed

lemma positionsEqual_iff: "positionsEqual a b \<longleftrightarrow> a = b"
  by (auto simp: positionsEqual_def prod_eq_iff)

lemma landable_transfer:
  "landable e A k \<Longrightarrow> cell A k \<noteq> None
     \<Longrightarrow> map_option team (cell S k) = map_option team (cell A k) \<Longrightarrow> landable e S k"
  by (auto simp: landable_def split: option.splits)

lemma forward_mem:
  "k \<in> set (if v1 \<and> c1 then a # (if s \<and> v2 \<and> c2 then [b] else []) else [])
     \<Longrightarrow> (c1 \<and> k = a) \<or> (c2 \<and> k = b)"
  by (auto split: if_splits)

lemma attack_pawn:
  assumes mem: "k \<in> set (getPawnMoves e A)" and occ: "cell A k \<noteq> None"
    and same: "map_option team (cell S k) = map_option team (cell A k)"
  shows "k \<in> set (getPawnMoves e S)"
proof -
  define dir :: int where "dir = (if team e = WHITE then - 1 else 1)"
  define caps where "caps = [(fst (position e) - 1, snd (position e) + dir),
                             (fst (position e) + 1, snd (position e) + dir)]"
  define en :: "Board \<Rightarrow> Position \<Rightarrow> bool" where "en = (\<lambda>b pos. isValidPosition pos \<and>
                  (case cell b pos of None \<Rightarrow> False
                   | Some targetPiece \<Rightarrow> team targetPiece \<noteq> team e))"
  have split: "set (getPawnMoves e b) =
      set (if isValidPosition (fst (position e), snd (position e) + dir)
              \<and> cell b (fst (position e), snd (position e) + dir) = None
           then (fst (position e), snd (position e) + dir) #
             (if snd (position e) = (if team e = WHITE then 6 else 1)
                 \<and> isValidPosition (fst (position e), snd (position e) + dir * 2)
                 \<and> cell b (fst (position e), snd (position e) + dir * 2) = None
              then [(fst (position e), snd (position e) + dir * 2)] else [])
           else []) \<union> set (filter (en b) caps)" for b
    unfolding getPawnMoves_def Let_def dir_def caps_def en_def by (simp only: set_append)
  have "k \<notin> set (if isValidPosition (fst (position e), snd (position e) + dir)
              \<and> cell A (fst (position e), snd (position e) + dir) = None
           then (fst (position e), snd (position e) + dir) #
             (if snd (position e) = (if team e = WHITE then 6 else 1)
                 \<and> isValidPosition (fst (position e), snd (position e) + dir * 2)
                 \<and> cell A (fst (position e), snd (position e) + dir * 2) = None
              then [(fst (position e), snd (position e) + dir * 2)] else [])
           else [])" (is "k \<notin> ?fwd")
  proof
    assume "k \<in> ?fwd"
    from forward_mem [OF this] show False using occ by auto
  qed
  then have "k \<in> set (filter (en A) caps)" using mem split [of A] by blast
  then have "k \<in> set caps" and "en A k" by simp_all
  then have "en S k" using same unfolding en_def by (auto split: option.splits)
  then have "k \<in> set (filter (en S) caps)" using \<open>k \<in> set caps\<close> by simp
  then show ?thesis using split [of S] by blast
qed

lemma attack_knight:
  assumes "k \<in> set (getKnightMoves e A)" and "landable e A k \<Longrightarrow> landable e S k"
  shows "k \<in> set (getKnightMoves e S)"
  using assms unfolding getKnightMoves_def Let_def by (simp only: set_filter) blast

lemma attack_king:
  assumes "k \<in> set (getBasicKingMoves e A)" and "landable e A k \<Longrightarrow> landable e S k"
  shows "k \<in> set (getBasicKingMoves e S)"
  using assms unfolding getBasicKingMoves_def Let_def by (simp only: set_filter) blast

lemma attack_straight:
  assumes "k \<in> set (getStraightMoves e A)"
    and "\<And>d. k \<in> set (rayMoves e A d [1..7]) \<Longrightarrow> k \<in> set (rayMoves e S d [1..7])"
  shows "k \<in> set (getStraightMoves e S)"
  using assms unfolding getStraightMoves_def by (simp only: set_concat set_map) blast

lemma attack_diagonal:
  assumes "k \<in> set (getDiagonalMoves e A)"
    and "\<And>d. k \<in> set (rayMoves e A d [1..7]) \<Longrightarrow> k \<in> set (rayMoves e S d [1..7])"
  shows "k \<in> set (getDiagonalMoves e S)"
  using assms unfolding getDiagonalMoves_def by (simp only: set_concat set_map) blast

lemma attack_transfer:
  assumes mem: "k \<in> set (getRawValidMoves e A)"
    and occ: "cell A k \<noteq> None"
    and same: "map_option team (cell S k) = map_option team (cell A k)"
    and empt: "\<And>d i j. 1 \<le> j \<Longrightarrow> j < i
        \<Longrightarrow> k = (fst (position e) + fst d * i, snd (position e) + snd d * i)
        \<Longrightarrow> isValidPosition (fst (position e) + fst d * j, snd (position e) + snd d * j)
        \<Longrightarrow> cell A (fst (position e) + fst d * j, snd (position e) + snd d * j) = None
        \<Longrightarrow> cell S (fst (position e) + fst d * j, snd (position e) + snd d * j) = None"
  shows "k \<in> set (getRawValidMoves e S)"
proof -
  have v: "isValidPosition k" using mem by (simp add: getRawValidMoves_def)
  have ray: "k \<in> set (rayMoves e A d [1..7]) \<Longrightarrow> k \<in> set (rayMoves e S d [1..7])" for d
    using ray_transfer [where k = k and e = e and A = A and d = d and S = S] occ same empt by blast
  have land: "landable e A k \<Longrightarrow> landable e S k"
    using landable_transfer occ same by blast
  show ?thesis
  proof (cases "ptype e")
    case PAWN
    then show ?thesis using mem v attack_pawn [where e = e, OF _ occ same]
      by (simp add: getRawValidMoves_def)
  next
    case KNIGHT
    then show ?thesis using mem v attack_knight [where e = e, OF _ land]
      by (simp add: getRawValidMoves_def)
  next
    case BISHOP
    then show ?thesis using mem v attack_diagonal [where e = e, OF _ ray]
      by (simp add: getRawValidMoves_def getBishopMoves_def)
  next
    case ROOK
    then show ?thesis using mem v attack_straight [where e = e, OF _ ray]
      by (simp add: getRawValidMoves_def getRookMoves_def)
  next
    case QUEEN
    then show ?thesis using mem v attack_straight [where e = e, OF _ ray] attack_diagonal [where e = e, OF _ ray]
      by (auto simp: getRawValidMoves_def getQueenMoves_def)
  next
    case KING
    then show ?thesis using mem v attack_king [where e = e, OF _ land]
      by (simp add: getRawValidMoves_def)
  qed
qed

lemma isKingInCheck_iff:
  "isKingInCheck tm b \<longleftrightarrow>
     (\<exists>k. findKing tm b = Some k \<and>
        (\<exists>pos e. isValidPosition pos \<and> cell b pos = Some e \<and> team e \<noteq> tm \<and> isAlive e
           \<and> k \<in> set (getRawValidMoves e b)))"
  unfolding isKingInCheck_def list_ex_iff set_allSquares positionsEqual_iff
  by (fastforce split: option.splits)

lemma findKing_cong:
  assumes "\<And>pos. isValidPosition pos \<Longrightarrow>
      (case cell A pos of None \<Rightarrow> False | Some p \<Rightarrow> ptype p = KING \<and> team p = tm) =
      (case cell S pos of None \<Rightarrow> False | Some p \<Rightarrow> ptype p = KING \<and> team p = tm)"
  shows "findKing tm A = findKing tm S"
  unfolding findKing_def using assms by (intro find_cong) (simp_all add: set_allSquares)

lemma findKing_Some:
  "findKing tm b = Some k \<Longrightarrow>
     isValidPosition k \<and> (\<exists>p. cell b k = Some p \<and> ptype p = KING \<and> team p = tm)"
proof -
  assume "findKing tm b = Some k"
  then have "k \<in> set allSquares
      \<and> (case cell b k of None \<Rightarrow> False | Some p \<Rightarrow> ptype p = KING \<and> team p = tm)"
    unfolding findKing_def find_Some_iff by (metis nth_mem)
  then show ?thesis by (auto simp: set_allSquares split: option.splits)
qed

lemma check_transfer:
  assumes chk: "isKingInCheck tm A"
    and kings: "\<And>pos. isValidPosition pos \<Longrightarrow>
      (case cell A pos of None \<Rightarrow> False | Some p \<Rightarrow> ptype p = KING \<and> team p = tm) =
      (case cell S pos of None \<Rightarrow> False | Some p \<Rightarrow> ptype p = KING \<and> team p = tm)"
    and enemies: "\<And>pos e. isValidPosition pos \<Longrightarrow> cell A pos = Some e \<Longrightarrow> team e \<noteq> tm
        \<Longrightarrow> cell S pos = Some e"
    and empt: "\<And>k pos e d i j. findKing tm A = Some k \<Longrightarrow> cell A pos = Some e
        \<Longrightarrow> isValidPosition pos \<Longrightarrow> team e \<noteq> tm \<Longrightarrow> 1 \<le> j \<Longrightarrow> j < i
        \<Longrightarrow> k = (fst (position e) + fst d * i, snd (position e) + snd d * i)
        \<Longrightarrow> isValidPosition (fst (position e) + fst d * j, snd (position e) + snd d * j)
        \<Longrightarrow> cell A (fst (position e) + fst d * j, snd (position e) + snd d * j) = None
        \<Longrightarrow> cell S (fst (position e) + fst d * j, snd (position e) + snd d * j) = None"
  shows "isKingInCheck tm S"
proof -
  from chk obtain k pos e where k: "findKing tm A = Some k"
    and pos: "isValidPosition pos" "cell A pos = Some e" "team e \<noteq> tm" "isAlive e"
    and att: "k \<in> set (getRawValidMoves e A)"
    unfolding isKingInCheck_iff by blast
  have kS: "findKing tm S = Some k" using findKing_cong [where A = A and S = S and tm = tm] kings k by simp
  from findKing_Some [OF k] obtain p where vk: "isValidPosition k"
    and p: "cell A k = Some p" "ptype p = KING" "team p = tm" by blast
  from findKing_Some [OF kS] obtain q where q: "cell S k = Some q" "ptype q = KING" "team q = tm"
    by blast
  have same: "map_option team (cell S k) = map_option team (cell A k)" using p q by simp
  have occ: "cell A k \<noteq> None" using p by simp
  have "k \<in> set (getRawValidMoves e S)"
    using attack_transfer [OF att occ same] empt [OF k pos(2) pos(1) pos(3)] by blast
  moreover have "cell S pos = Some e" using enemies pos by blast
  ultimately show ?thesis unfolding isKingInCheck_iff using kS pos by blast
qed

lemma getValidMoves_mem:
  "to \<in> set (getValidMoves piece b) \<longleftrightarrow>
     isValidPosition to \<and> \<not> wouldMoveResultInCheck piece to b \<and>
     to \<in> set (case ptype piece of
          PAWN \<Rightarrow> getPawnMoves piece b
        | KNIGHT \<Rightarrow> getKnightMoves piece b
        | BISHOP \<Rightarrow> getBishopMoves piece b
        | ROOK \<Rightarrow> getRookMoves piece b
        | QUEEN \<Rightarrow> getQueenMoves piece b
        | KING \<Rightarrow> getKingMoves piece b)"
  by (auto simp: getValidMoves_def)

lemma basicKing_near:
  "k \<in> set (getBasicKingMoves e b) \<Longrightarrow> \<bar>fst k - fst (position e)\<bar> \<le> 1"
proof -
  assume "k \<in> set (getBasicKingMoves e b)"
  then have "k \<in> set (concat (map (\<lambda>dx. concat (map (\<lambda>dy.
              if dx = 0 \<and> dy = 0 then [] else [(fst (position e) + dx, snd (position e) + dy)])
                [- 1, 0, 1])) [- 1, 0, 1]))"
    unfolding getBasicKingMoves_def Let_def by (simp only: set_filter mem_Collect_eq)
  then show ?thesis by auto
qed

lemma castling_mem:
  "to \<in> set (getCastlingMoves king b) \<longleftrightarrow>
     (to = (6, snd (position king))
        \<and> (\<exists>rook. cell b (7, snd (position king)) = Some rook \<and> ptype rook = ROOK
               \<and> team rook = team king \<and> \<not> hasMoved rook)
        \<and> cell b (5, snd (position king)) = None \<and> cell b (6, snd (position king)) = None
        \<and> \<not> wouldMoveResultInCheck king (5, snd (position king)) b
        \<and> \<not> wouldMoveResultInCheck king (6, snd (position king)) b)
   \<or> (to = (2, snd (position king))
        \<and> (\<exists>rook. cell b (0, snd (position king)) = Some rook \<and> ptype rook = ROOK
               \<and> team rook = team king \<and> \<not> hasMoved rook)
        \<and> cell b (1, snd (position king)) = None \<and> cell b (2, snd (position king)) = None
        \<and> cell b (3, snd (position king)) = None
        \<and> \<not> wouldMoveResultInCheck king (3, snd (position king)) b
        \<and> \<not> wouldMoveResultInCheck king (2, snd (position king)) b)"
  unfolding getCastlingMoves_def Let_def
  by (cases "cell b (7, snd (position king))"; cases "cell b (0, snd (position king))") auto

lemma placedBoard_D:
  assumes "placedBoard b" and "isValidPosition pos" and "cell b pos = Some p"
  shows "position p = pos"
proof -
  have "pos \<in> set allSquares" using assms(2) by (simp add: set_allSquares)
  then have "case cell b pos of None \<Rightarrow> True | Some p \<Rightarrow> position p = pos"
    using assms(1) unfolding placedBoard_def list_all_iff by blast
  then show ?thesis using assms(3) by simp
qed

lemma singleKing_D:
  assumes "singleKing tm b" and "isValidPosition pos" and "cell b pos = Some p"
    and "ptype p = KING" and "team p = tm"
  shows "findKing tm b = Some pos"
proof -
  have "pos \<in> set allSquares" using assms(2) by (simp add: set_allSquares)
  then have "case cell b pos of None \<Rightarrow> True
             | Some p \<Rightarrow> ptype p = KING \<and> team p = tm \<longrightarrow> findKing tm b = Some pos"
    using assms(1) unfolding singleKing_def list_all_iff by blast
  then show ?thesis using assms(3,4,5) by simp
qed

lemma ray_beyond:
  fixes p dx i j c t :: int
  assumes "p + dx * j = c" and "p + dx * i = t" and "1 \<le> j" and "j < i"
  shows "(t < c \<longrightarrow> c < p) \<and> (c < t \<longrightarrow> p < c)"
proof (cases "dx = 0")
  case True
  then show ?thesis using assms by simp
next
  case False
  show ?thesis
  proof (cases "0 < dx")
    case True
    have "dx * j < dx * i" using True assms(4) by (simp add: mult_strict_left_mono)
    moreover have "1 * 1 \<le> dx * j" using True assms(3) by (intro mult_mono) simp_all
    ultimately show ?thesis using assms by simp
  next
    case neg: False
    then have n: "dx < 0" using False by simp
    have "dx * i < dx * j" using n assms(4) by (simp add: mult_strict_left_mono_neg)
    moreover have "1 * 1 \<le> (- dx) * j" using n assms(3) by (intro mult_mono) simp_all
    ultimately show ?thesis using assms by simp
  qed
qed

lemma plain_move_safe:
  assumes on: "cell b (position piece) = Some piece"
    and nc: "\<not> isCastlingMove piece to"
    and safe: "\<not> wouldMoveResultInCheck piece to b"
  shows "\<not> isKingInCheck (team piece) (makeMove b (moveOf piece to))"
proof
  let ?A = "setCell (setCell b to (Some (piece\<lparr>position := to, hasMoved := True\<rparr>))) (position piece) None"
  let ?S = "setCell (setCell b to (Some (piece\<lparr>position := to\<rparr>))) (position piece) None"
  have A: "makeMove b (moveOf piece to) = ?A"
    using on nc by (simp add: makeMove_def moveOf_def Let_def)
  assume "isKingInCheck (team piece) (makeMove b (moveOf piece to))"
  then have chk: "isKingInCheck (team piece) ?A" using A by simp
  have "isKingInCheck (team piece) ?S"
  proof (rule check_transfer [OF chk])
    fix pos
    show "(case cell ?A pos of None \<Rightarrow> False | Some p \<Rightarrow> ptype p = KING \<and> team p = team piece) =
          (case cell ?S pos of None \<Rightarrow> False | Some p \<Rightarrow> ptype p = KING \<and> team p = team piece)"
      by (auto simp: cell_setCell inGrid_setCell split: option.splits)
  next
    fix pos e
    assume "cell ?A pos = Some e" "team e \<noteq> team piece"
    then show "cell ?S pos = Some e"
      by (auto simp: cell_setCell inGrid_setCell split: if_splits)
  next
    fix e :: Piece and d :: "int \<times> int" and j :: int
    assume "cell ?A (fst (position e) + fst d * j, snd (position e) + snd d * j) = None"
    then show "cell ?S (fst (position e) + fst d * j, snd (position e) + snd d * j) = None"
      by (auto simp: cell_setCell inGrid_setCell split: if_splits)
  qed
  then show False using safe by (simp add: wouldMoveResultInCheck_def Let_def)
qed

lemma castle_safe:
  assumes wf: "wfBoard b" and placed: "placedBoard b" and one: "singleKing (team K) b"
    and K: "cell b (4, y) = Some K" "ptype K = KING"
    and R: "cell b (rf, y) = Some R" "team R = team K" "ptype R = ROOK"
    and dest: "cell b (tx, y) = None" and rtE: "cell b (rt, y) = None"
    and geom: "(rf = 7 \<and> rt = 5 \<and> tx = 6) \<or> (rf = 0 \<and> rt = 3 \<and> tx = 2)"
    and safe: "\<not> isKingInCheck (team K) (setCell (setCell b (tx, y) (Some K2)) (4, y) None)"
    and K1: "ptype K1 = KING" "team K1 = team K"
    and K2: "ptype K2 = KING" "team K2 = team K"
    and R1: "ptype R1 = ROOK" "team R1 = team K"
  shows "\<not> isKingInCheck (team K)
           (setCell (setCell (setCell (setCell b (rt, y) (Some R1)) (rf, y) None)
                       (tx, y) (Some K1)) (4, y) None)"
proof
  let ?A = "setCell (setCell (setCell (setCell b (rt, y) (Some R1)) (rf, y) None)
                       (tx, y) (Some K1)) (4, y) None"
  let ?S = "setCell (setCell b (tx, y) (Some K2)) (4, y) None"
  have vy: "0 \<le> y \<and> y < 8" using cell_valid [OF wf K(1)] by (simp add: isValidPosition_def)
  have g: "inGrid b (x, y) \<longleftrightarrow> 0 \<le> x \<and> x < 8" for x
    using inGrid_wf [OF wf, of "(x, y)"] vy by (simp add: isValidPosition_def)
  have cA: "cell ?A pos = (if pos = (4, y) then None else if pos = (tx, y) then Some K1
              else if pos = (rf, y) then None else if pos = (rt, y) then Some R1 else cell b pos)" for pos
    using geom by (auto simp: cell_setCell inGrid_setCell g)
  have cS: "cell ?S pos = (if pos = (4, y) then None else if pos = (tx, y) then Some K2
              else cell b pos)" for pos
    using geom by (auto simp: cell_setCell inGrid_setCell g)
  assume chk: "isKingInCheck (team K) ?A"
  have kingAt: "k = (tx, y)" if fk: "findKing (team K) ?A = Some k" for k
  proof (rule ccontr)
    assume ne: "k \<noteq> (tx, y)"
    from findKing_Some [OF fk] obtain p where vk: "isValidPosition k"
      and p: "cell ?A k = Some p" "ptype p = KING" "team p = team K" by blast
    have "cell b k = Some p \<and> k \<noteq> (4, y)"
      using p ne R1 by (auto simp: cA split: if_splits)
    then have "findKing (team K) b = Some k" and "k \<noteq> (4, y)"
      using singleKing_D [OF one vk _ p(2) p(3)] by simp_all
    moreover have "findKing (team K) b = Some (4, y)"
      using singleKing_D [OF one cell_valid [OF wf K(1)] K(1) K(2)] by simp
    ultimately show False by simp
  qed
  have "isKingInCheck (team K) ?S"
  proof (rule check_transfer [OF chk])
    fix pos
    show "(case cell ?A pos of None \<Rightarrow> False | Some p \<Rightarrow> ptype p = KING \<and> team p = team K) =
          (case cell ?S pos of None \<Rightarrow> False | Some p \<Rightarrow> ptype p = KING \<and> team p = team K)"
      using K1 K2 R1 R rtE by (auto simp: cA cS split: option.splits)
  next
    fix pos e
    assume "cell ?A pos = Some e" "team e \<noteq> team K"
    then show "cell ?S pos = Some e"
      using K1 R1 by (auto simp: cA cS split: if_splits)
  next
    fix k pos e and d :: "int \<times> int" and i j :: int
    assume fk: "findKing (team K) ?A = Some k"
      and e: "cell ?A pos = Some e" "isValidPosition pos" "team e \<noteq> team K"
      and ij: "1 \<le> j" "j < i"
      and k: "k = (fst (position e) + fst d * i, snd (position e) + snd d * i)"
      and q: "cell ?A (fst (position e) + fst d * j, snd (position e) + snd d * j) = None"
    let ?q = "(fst (position e) + fst d * j, snd (position e) + snd d * j)"
    have kk: "k = (tx, y)" by (rule kingAt [OF fk])
    have "cell b pos = Some e" using e K1 R1 by (auto simp: cA split: if_splits)
    then have pe: "position e = pos" using placedBoard_D [OF placed e(2)] by simp
    have px: "0 \<le> fst (position e) \<and> fst (position e) < 8"
      using e(2) pe by (simp add: isValidPosition_def)
    have "?q \<noteq> (rf, y)"
    proof
      assume "?q = (rf, y)"
      then have a: "fst (position e) + fst d * j = rf" by simp
      have b: "fst (position e) + fst d * i = tx" using k kk by simp
      from ray_beyond [OF a b ij] geom px show False by auto
    qed
    then show "cell ?S ?q = None" using q by (auto simp: cA cS split: if_splits)
  qed
  then show False using safe by simp
qed

section \<open>Lemmas: the castling scenario\<close>

lemma castle_scene_moves:
  "(6, 7) \<in> set (getKingMoves castleKing castleBoard) \<and>
   (2, 7) \<in> set (getKingMoves castleKing castleBoard)"
  by code_simp

lemma castle_scene_facts:
  "position castleKing = (4, 7) \<and> ptype castleKing = KING \<and> team castleKing = WHITE \<and>
   cell castleBoard (4, 7) = Some castleKing \<and> wfBoard castleBoard \<and> placedBoard castleBoard \<and>
   singleKing WHITE castleBoard \<and> \<not> wouldMoveResultInCheck castleKing (6, 7) castleBoard"
  by code_simp

section \<open>Verified properties\<close>

text \<open>
  C1, at the input where the code departs from it. The white queen (attack power 40)
  captures the black pawn (50 hit points) of \<open>captureScene\<close>: the pawn is left with 10
  hit points and \<open>isAlive = true\<close>, yet the target square holds the queen (address 2)
  and the pawn (address 3) is on no square of the board after the move.
\<close>

theorem C1_surviving_defender_leaves_board:
  "cell (board captureStore) (0, 6) = Some 3 \<and>
   (case movePiece (0, 7) (0, 6) 0 captureStore (snd captureScene) of (st, h) \<Rightarrow>
      currentHp (stats (pieces h 3)) = 10 \<and> isAlive (pieces h 3) \<and>
      cell (board st) (0, 6) = Some 2 \<and>
      \<not> list_ex (\<lambda>pos. cell (board st) pos = Some 3) allSquares)"
  using capture_scene_outcome capture_scene_input by (simp add: split_beta)

text \<open>
  C2 as stated fails: in the scenario (queen with attack power 40, pawn with defense 5
  and 50 hit points) the move does not record a damage of \<open>max(1, 40 - 5) = 35\<close> and
  does not leave the pawn with 15 hit points.
\<close>

theorem C2_counterexample:
  "ptype (pieces (snd captureScene) 2) = QUEEN \<and>
   attackPower (stats (pieces (snd captureScene) 2)) = 40 \<and>
   ptype (pieces (snd captureScene) 3) = PAWN \<and>
   defense (stats (pieces (snd captureScene) 3)) = 5 \<and>
   currentHp (stats (pieces (snd captureScene) 3)) = 50 \<and>
   \<not> (case movePiece (0, 7) (0, 6) 0 captureStore (snd captureScene) of (st, h) \<Rightarrow>
        damage (last (moveHistory st)) = Some (max 1 (40 - 5)) \<or>
        currentHp (stats (pieces h 3)) = 15)"
  using capture_scene_outcome capture_scene_input by (simp add: split_beta)

text \<open>
  C2, amended. When a queen with attack power 40 captures, by a valid move of
  \<open>movePiece\<close>, a pawn with defense 5 and 50 hit points, the damage recorded for the
  move is the attacker's attack power, 40 (the defense is not subtracted), the pawn
  object is left with 10 hit points, and its \<open>isAlive\<close> flag stays true.
\<close>

theorem C2_capture_deals_attack_power:
  assumes src: "cell (board st) from = Some a"
    and dst: "cell (board st) to = Some d"
    and valid: "isMoveValid (pieces h a) to (deref h (board st))"
    and queen: "ptype (pieces h a) = QUEEN" "attackPower (stats (pieces h a)) = 40"
    and pawn: "ptype (pieces h d) = PAWN" "defense (stats (pieces h d)) = 5"
      "currentHp (stats (pieces h d)) = 50" "isAlive (pieces h d)"
    and alloc: "d < nextRef h"
  shows "case movePiece from to now st h of (st', h') \<Rightarrow>
           damage (last (moveHistory st')) = Some 40 \<and>
           currentHp (stats (pieces h' d)) = 10 \<and> isAlive (pieces h' d)"
proof -
  have ne: "a \<noteq> d" using queen pawn by auto
  have nocastle: "\<not> isCastlingMove (pieces h a) to" using queen by (simp add: isCastlingMove_def)
  define h2 where "h2 = updPiece d (\<lambda>p. p\<lparr>stats := (stats p)\<lparr>currentHp := 10\<rparr>\<rparr>) h"
  define h3 where "h3 = updPiece a (\<lambda>p. p\<lparr>position := to, hasMoved := True\<rparr>) h2"
  have cap: "capture a (Some d) to (board st) h mv =
      (board st, h2, mv\<lparr>damage := Some 40, capturedPiece := map_option
                          (\<lambda>c. c\<lparr>stats := (stats c)\<lparr>currentHp := 10\<rparr>\<rparr>) (capturedPiece mv)\<rparr>)" for mv
    using queen pawn by (simp add: capture_def Let_def h2_def)
  have h3d: "pieces h3 d = (pieces h d)\<lparr>stats := (stats (pieces h d))\<lparr>currentHp := 10\<rparr>\<rparr>"
    using ne by (simp add: h3_def h2_def updPiece_def)
  have n3: "nextRef h3 = nextRef h" by (simp add: h3_def h2_def updPiece_def)
  obtain st1 where mp: "movePiece from to now st h = endTurn st1 h3"
    and hist: "damage (last (moveHistory st1)) = Some 40"
    using src dst valid nocastle cap
    by (simp add: movePiece_def Let_def h3_def)
  have ext: "heapExt h3 (snd (endTurn st1 h3))" by (rule endTurn_ext)
  then have "pieces (snd (endTurn st1 h3)) d = pieces h3 d"
    using alloc n3 by (simp add: heapExt_def)
  with h3d hist pawn endTurn_fields [of st1 h3] mp show ?thesis
    by (simp add: split_beta)
qed

theorem C2_witness:
  "case movePiece (0, 7) (0, 6) 0 captureStore (snd captureScene) of (st', h') \<Rightarrow>
     damage (last (moveHistory st')) = Some 40 \<and>
     currentHp (stats (pieces h' 3)) = 10 \<and> isAlive (pieces h' 3)"
proof -
  have valid: "isMoveValid (pieces (snd captureScene) 2) (0, 6)
                 (deref (snd captureScene) (board captureStore))"
    by code_simp
  show ?thesis
    using valid capture_scene_input
    by (intro C2_capture_deals_attack_power [of captureStore "(0, 7)" 2 "(0, 6)" 3]) simp_all
qed

text \<open>
  C3, where the code departs from it. For every board, bounds and search depth, the
  result of \<open>minimax\<close> at depth \<open>d + 1\<close> is its result at depth 1, and the score of the
  move it returns is the static evaluation of the board right after that move: the
  result of the recursive search is bound to \<open>childMove\<close> and never used, so nothing
  is backed up from the subtree.
\<close>

theorem C3_search_depth_is_ignored:
  "minimax aiTeam b (Suc d) alpha beta maximizing = minimax aiTeam b (Suc 0) alpha beta maximizing
   \<and> map_option score (minimax aiTeam b (Suc d) alpha beta maximizing) =
     map_option (\<lambda>m. evScore (evaluateBoard aiTeam (makeMove b m)))
       (minimax aiTeam b (Suc d) alpha beta maximizing)"
proof
  show "minimax aiTeam b (Suc d) alpha beta maximizing = minimax aiTeam b (Suc 0) alpha beta maximizing"
    using maxLoop_search_irrelevant [of "\<lambda>newBoard a bt. minimax aiTeam newBoard d a bt False" aiTeam b _ alpha beta MinusInfinity None
            "\<lambda>newBoard a bt. minimax aiTeam newBoard 0 a bt False"]
          minLoop_search_irrelevant [of "\<lambda>newBoard a bt. minimax aiTeam newBoard d a bt True" aiTeam b _ alpha beta PlusInfinity None
            "\<lambda>newBoard a bt. minimax aiTeam newBoard 0 a bt True"]
    by (simp add: Let_def del: maxLoop.simps minLoop.simps)
next
  have "staticScored aiTeam b None" by (simp add: staticScored_def)
  then have "staticScored aiTeam b (minimax aiTeam b (Suc d) alpha beta maximizing)"
    using maxLoop_static minLoop_static by (simp add: Let_def del: maxLoop.simps minLoop.simps)
  then show "map_option score (minimax aiTeam b (Suc d) alpha beta maximizing) =
     map_option (\<lambda>m. evScore (evaluateBoard aiTeam (makeMove b m)))
       (minimax aiTeam b (Suc d) alpha beta maximizing)"
    by (simp add: staticScored_def)
qed

text \<open>
  C4. On a board in play (eight by eight, every piece on the square its position names,
  at most one king of the moving side) and for a piece that stands on the board, every
  move that \<open>getValidMoves\<close> returns, applied as \<open>makeMove\<close> applies it (the piece is
  placed on the destination with the occupant removed, and for a castling move the rook
  is relocated too), gives a board on which the moving side's king is not in check.
\<close>

theorem C4_valid_moves_leave_king_safe:
  assumes wf: "wfBoard b" and placed: "placedBoard b" and one: "singleKing (team piece) b"
    and on: "cell b (position piece) = Some piece"
    and mv: "to \<in> set (getValidMoves piece b)"
  shows "\<not> isKingInCheck (team piece) (makeMove b (moveOf piece to))"
proof (cases "isCastlingMove piece to")
  case False
  have "\<not> wouldMoveResultInCheck piece to b" using mv by (simp add: getValidMoves_mem)
  then show ?thesis using plain_move_safe [OF on False] by simp
next
  case True
  obtain x y where pos: "position piece = (x, y)" by (cases "position piece")
  have king: "ptype piece = KING" and dx: "\<bar>fst to - x\<bar> = 2"
    using True pos by (simp_all add: isCastlingMove_def Let_def)
  have inK: "to \<in> set (getKingMoves piece b)" using mv king by (simp add: getValidMoves_mem)
  have "to \<notin> set (getBasicKingMoves piece b)"
    using basicKing_near [of to piece b] dx pos by auto
  then have cm: "to \<in> set (getCastlingMoves piece b)"
    using inK by (auto simp: getKingMoves_def split: if_splits)
  have onxy: "cell b (x, y) = Some piece" using on pos by simp
  have vx: "0 \<le> x \<and> x < 8" using cell_valid [OF wf onxy] by (simp add: isValidPosition_def)
  let ?K1 = "piece\<lparr>position := to, hasMoved := True\<rparr>"
  let ?K2 = "piece\<lparr>position := to\<rparr>"
  from cm [unfolded castling_mem] show ?thesis
  proof (elim disjE conjE exE)
    fix rook
    assume to: "to = (6, snd (position piece))"
      and rook: "cell b (7, snd (position piece)) = Some rook" "ptype rook = ROOK"
        "team rook = team piece"
      and e: "cell b (5, snd (position piece)) = None" "cell b (6, snd (position piece)) = None"
      and safe: "\<not> wouldMoveResultInCheck piece (6, snd (position piece)) b"
    have x4: "x = 4" using dx to vx by auto
    let ?R1 = "rook\<lparr>position := (5, y), hasMoved := True\<rparr>"
    have A: "makeMove b (moveOf piece to) =
        setCell (setCell (setCell (setCell b (5, y) (Some ?R1)) (7, y) None) (6, y) (Some ?K1)) (4, y) None"
      using onxy True rook to pos x4
      by (simp add: makeMove_def moveOf_def castleRook_def Let_def)
    have S: "\<not> isKingInCheck (team piece) (setCell (setCell b (6, y) (Some ?K2)) (4, y) None)"
      using safe to pos x4 by (simp add: wouldMoveResultInCheck_def Let_def)
    show ?thesis
      unfolding A
      using castle_safe [where b = b and K = piece and y = y and rf = 7 and R = rook and tx = 6
              and rt = 5 and ?K2.0 = ?K2 and ?K1.0 = ?K1 and ?R1.0 = ?R1, OF wf placed one]
            onxy x4 king rook e S pos
      by simp
  next
    fix rook
    assume to: "to = (2, snd (position piece))"
      and rook: "cell b (0, snd (position piece)) = Some rook" "ptype rook = ROOK"
        "team rook = team piece"
      and e: "cell b (1, snd (position piece)) = None" "cell b (2, snd (position piece)) = None"
        "cell b (3, snd (position piece)) = None"
      and safe: "\<not> wouldMoveResultInCheck piece (2, snd (position piece)) b"
    have "x \<noteq> 0" using rook onxy king pos by auto
    then have x4: "x = 4" using dx to vx by auto
    let ?R1 = "rook\<lparr>position := (3, y), hasMoved := True\<rparr>"
    have A: "makeMove b (moveOf piece to) =
        setCell (setCell (setCell (setCell b (3, y) (Some ?R1)) (0, y) None) (2, y) (Some ?K1)) (4, y) None"
      using onxy True rook to pos x4
      by (simp add: makeMove_def moveOf_def castleRook_def Let_def)
    have S: "\<not> isKingInCheck (team piece) (setCell (setCell b (2, y) (Some ?K2)) (4, y) None)"
      using safe to pos x4 by (simp add: wouldMoveResultInCheck_def Let_def)
    show ?thesis
      unfolding A
      using castle_safe [where b = b and K = piece and y = y and rf = 0 and R = rook and tx = 2
              and rt = 3 and ?K2.0 = ?K2 and ?K1.0 = ?K1 and ?R1.0 = ?R1, OF wf placed one]
            onxy x4 king rook e S pos
      by simp
  qed
qed

theorem C4_witness:
  "(6, 7) \<in> set (getValidMoves castleKing castleBoard) \<and>
   isCastlingMove castleKing (6, 7) \<and>
   \<not> isKingInCheck WHITE (makeMove castleBoard (moveOf castleKing (6, 7)))"
proof -
  have mv: "(6, 7) \<in> set (getValidMoves castleKing castleBoard)"
    using castle_scene_moves castle_scene_facts
    by (simp add: getValidMoves_mem isValidPosition_def)
  have c: "isCastlingMove castleKing (6, 7)"
    using castle_scene_facts by (simp add: isCastlingMove_def)
  have "\<not> isKingInCheck (team castleKing) (makeMove castleBoard (moveOf castleKing (6, 7)))"
    using castle_scene_facts
    by (intro C4_valid_moves_leave_king_safe [OF _ _ _ _ mv]) simp_all
  then show ?thesis using mv c castle_scene_facts by simp
qed

text \<open>
  C5, at the input where the code departs from it. The white rook of \<open>barrageScene\<close>
  casts Artillery Barrage on the black pawn. The call succeeds and returns a board with
  the same cells as the board it was given; the piece objects are shared, so the board
  that was passed in shows the pawn with 20 hit points instead of 50 and the rook with
  60 mana instead of 100 after the call.
\<close>

theorem C5_input_board_pieces_mutated:
  "(case executeAbility 0 6 (0, 1) (fst barrageScene) (snd barrageScene) of (res, h') \<Rightarrow>
     (success res, resultBoard res = fst barrageScene,
      map_option (currentHp \<circ> stats) (cell (deref (snd barrageScene) (fst barrageScene)) (0, 1)),
      map_option (currentHp \<circ> stats) (cell (deref h' (fst barrageScene)) (0, 1)),
      map_option (currentMana \<circ> stats) (cell (deref (snd barrageScene) (fst barrageScene)) (0, 7)),
      map_option (currentMana \<circ> stats) (cell (deref h' (fst barrageScene)) (0, 7))))
   = (True, True, Some 50, Some 20, Some 100, Some 60)"
  by code_simp

text \<open>
  C6. When the caster is dead, or has less mana than the ability costs, or the ability
  is on cooldown, or the caster's level is below the requirement, \<open>executeAbility\<close>
  returns \<open>success = false\<close> together with the board it was given, and the store is
  the same as before the call: no piece and no ability object has changed, so no mana
  was consumed and no cooldown set.
\<close>

theorem C6_refused_ability_changes_nothing:
  assumes "\<not> isAlive (pieces h caster)
         \<or> currentMana (stats (pieces h caster)) < manaCost (abils h ability)
         \<or> (\<exists>c. currentCooldown (abils h ability) = Some c \<and> c > 0)
         \<or> level (pieces h caster) < levelRequirement (abils h ability)"
  shows "\<exists>reason. executeAbility caster ability targetPos b h =
           (\<lparr>success = False, resultBoard = b, messages = [reason], affectedPieces = []\<rparr>, h)"
proof -
  have "\<not> fst (canUseAbility (pieces h caster) (abils h ability))"
    using assms by (auto simp: canUseAbility_def)
  then show ?thesis
    by (simp add: executeAbility_def Let_def)
qed

text \<open>
  The scenario of the claim: a pawn with 10 mana casts the Self-target ability
  Shield Wall, which costs 20.
\<close>

theorem C6_witness:
  "targetType (abils (snd lowManaScene) 0) = SELF \<and>
   (\<exists>reason. executeAbility 0 0 (0, 6) (fst lowManaScene) (snd lowManaScene) =
      (\<lparr>success = False, resultBoard = fst lowManaScene, messages = [reason],
        affectedPieces = []\<rparr>, snd lowManaScene))"
proof -
  have low: "currentMana (stats (pieces (snd lowManaScene) 0)) < manaCost (abils (snd lowManaScene) 0)"
    by code_simp
  have self: "targetType (abils (snd lowManaScene) 0) = SELF"
    by code_simp
  from low have "\<not> isAlive (pieces (snd lowManaScene) 0)
         \<or> currentMana (stats (pieces (snd lowManaScene) 0)) < manaCost (abils (snd lowManaScene) 0)
         \<or> (\<exists>c. currentCooldown (abils (snd lowManaScene) 0) = Some c \<and> c > 0)
         \<or> level (pieces (snd lowManaScene) 0) < levelRequirement (abils (snd lowManaScene) 0)"
    by blast
  from C6_refused_ability_changes_nothing [OF this] self show ?thesis
    by blast
qed

text \<open>
  C7. \<open>isCheckmate\<close> holds exactly when the team's king is in check and no living
  piece of the team on the board has a legal move; \<open>isStalemate\<close> holds exactly when
  the king is not in check and no living piece of the team has a legal move.
\<close>

theorem C7_checkmate_and_stalemate:
  "(isCheckmate tm b \<longleftrightarrow>
      isKingInCheck tm b \<and>
      (\<forall>pos piece. isValidPosition pos \<and> cell b pos = Some piece \<and> team piece = tm \<and> isAlive piece
          \<longrightarrow> getValidMoves piece b = []))
   \<and> (isStalemate tm b \<longleftrightarrow>
      \<not> isKingInCheck tm b \<and>
      (\<forall>pos piece. isValidPosition pos \<and> cell b pos = Some piece \<and> team piece = tm \<and> isAlive piece
          \<longrightarrow> getValidMoves piece b = []))"
  unfolding isCheckmate_def isStalemate_def hasLegalMove_iff by auto

theorem C7_witness:
  "isKingInCheck BLACK mateBoard \<and> getValidMoves (pieces (snd mateScene) 2) mateBoard = [] \<and>
   \<not> isKingInCheck BLACK staleBoard \<and> getValidMoves (pieces (snd staleScene) 2) staleBoard = []"
proof -
  have mate: "isCheckmate BLACK mateBoard"
    by code_simp
  have stale: "isStalemate BLACK staleBoard"
    by code_simp
  have km: "isValidPosition (0, 0) \<and> cell mateBoard (0, 0) = Some (pieces (snd mateScene) 2)
      \<and> team (pieces (snd mateScene) 2) = BLACK \<and> isAlive (pieces (snd mateScene) 2)"
    by code_simp
  have ks: "isValidPosition (0, 0) \<and> cell staleBoard (0, 0) = Some (pieces (snd staleScene) 2)
      \<and> team (pieces (snd staleScene) 2) = BLACK \<and> isAlive (pieces (snd staleScene) 2)"
    by code_simp
  from C7_checkmate_and_stalemate [of BLACK mateBoard]
       C7_checkmate_and_stalemate [of BLACK staleBoard] mate stale km ks
  show ?thesis by blast
qed

text \<open>
  C8. For a king on its home file (\<open>x = 4\<close>, where every king that has not moved
  stands), the moves of the king include the castling destination two squares towards
  the rook, \<open>(6, y)\<close> or \<open>(2, y)\<close>, exactly when the king has not moved, it is not in
  check, the corner of that side holds a rook of its team that has not moved, the
  squares between king and rook are empty, and the king placed on the square it crosses
  and on its destination is not in check.
\<close>

theorem C8_castling_destinations:
  assumes "position king = (4, y)"
  shows "((6, y) \<in> set (getKingMoves king b) \<longleftrightarrow>
            \<not> hasMoved king \<and> \<not> isKingInCheck (team king) b
            \<and> (\<exists>rook. cell b (7, y) = Some rook \<and> ptype rook = ROOK
                   \<and> team rook = team king \<and> \<not> hasMoved rook)
            \<and> cell b (5, y) = None \<and> cell b (6, y) = None
            \<and> \<not> wouldMoveResultInCheck king (5, y) b
            \<and> \<not> wouldMoveResultInCheck king (6, y) b)
       \<and> ((2, y) \<in> set (getKingMoves king b) \<longleftrightarrow>
            \<not> hasMoved king \<and> \<not> isKingInCheck (team king) b
            \<and> (\<exists>rook. cell b (0, y) = Some rook \<and> ptype rook = ROOK
                   \<and> team rook = team king \<and> \<not> hasMoved rook)
            \<and> cell b (1, y) = None \<and> cell b (2, y) = None \<and> cell b (3, y) = None
            \<and> \<not> wouldMoveResultInCheck king (3, y) b
            \<and> \<not> wouldMoveResultInCheck king (2, y) b)"
proof -
  have far: "(6, y) \<notin> set (getBasicKingMoves king b)" "(2, y) \<notin> set (getBasicKingMoves king b)"
    using basicKing_near [of "(6, y)" king b] basicKing_near [of "(2, y)" king b] assms by auto
  show ?thesis
    using far assms by (auto simp: getKingMoves_def castling_mem)
qed

theorem C8_witness:
  "(6, 7) \<in> set (getKingMoves castleKing castleBoard) \<and>
   (2, 7) \<in> set (getKingMoves castleKing castleBoard) \<and>
   \<not> hasMoved castleKing \<and> \<not> isKingInCheck (team castleKing) castleBoard \<and>
   cell castleBoard (5, 7) = None \<and> cell castleBoard (6, 7) = None \<and>
   cell castleBoard (1, 7) = None \<and> cell castleBoard (2, 7) = None \<and>
   cell castleBoard (3, 7) = None \<and>
   \<not> wouldMoveResultInCheck castleKing (5, 7) castleBoard \<and>
   \<not> wouldMoveResultInCheck castleKing (3, 7) castleBoard"
proof -
  have p: "position castleKing = (4, 7)" using castle_scene_facts by simp
  show ?thesis
    using C8_castling_destinations [OF p, of castleBoard] castle_scene_moves by blast
qed

text \<open>
  C9, at the input where the code departs from it. White ends the turn on
  \<open>statusScene\<close>, so the turn of the black pawn's owner begins: after \<open>endTurn\<close> the
  pawn still has 50 hit points and both effects with their durations 1 and 2. Had
  \<open>processStatusEffects\<close> been called on the pawn, the buff would have worn off with
  its message, the pawn would have 45 hit points and the other effect one turn left.
\<close>

theorem C9_endTurn_skips_status_effects:
  "(case endTurn (newStore (fst statusScene) WHITE) (snd statusScene) of (st, h) \<Rightarrow>
      (currentTurn st,
       map_option (\<lambda>p. (team p, currentHp (stats p), map duration (statusEffects p)))
         (cell (deref h (board st)) (0, 1))))
   = (BLACK, Some (BLACK, 50, [1, 2]))
  \<and> (case processStatusEffects 0 (snd statusScene) of (msgs, h) \<Rightarrow>
        (msgs, currentHp (stats (pieces h 0)), map duration (statusEffects (pieces h 0))))
     = ([''Shield Wall has worn off from pawn!'', ''pawn takes 5 damage from Poison!''], 45, [1])"
  by code_simp

text \<open>
  C10. Each operation keeps the statistics of the pieces on the board in range,
  \<open>0 \<le> currentHp \<le> maxHp\<close> and \<open>0 \<le> currentMana \<le> maxMana\<close>: a move with its capture
  damage, the execution of an ability (mana cost, damage, heal, status, teleport), the
  tick of the status effects of a piece, and the end of a turn with its regeneration
  of 10 mana. The board before the operation holds allocated pieces with statistics in
  range; attack powers, the mana cost and effect values of the ability and the values
  of the status effects are not negative, as in every definition of the repository.
\<close>

theorem C10_stats_stay_in_range:
  "(boardInRange h (board st) \<and> attackNonNegative h (board st) \<longrightarrow>
      (case movePiece src dst now st h of (st', h') \<Rightarrow> boardInRange h' (board st')))
   \<and> (boardInRange h b \<and> cellInRange h (Some caster) \<and> abilityNonNegative (abils h ability) \<longrightarrow>
      (case executeAbility caster ability targetPos b h of
         (res, h') \<Rightarrow> boardInRange h' (resultBoard res)))
   \<and> (boardInRange h b \<and> effectsNonNegative (pieces h r) \<longrightarrow>
      boardInRange (snd (processStatusEffects r h)) b)
   \<and> (boardInRange h (board st) \<longrightarrow>
      (case endTurn st h of (st', h') \<Rightarrow> boardInRange h' (board st')))"
  using movePiece_inRange [of h st src dst now]
        executeAbility_inRange [of h b caster ability targetPos]
        processStatusEffects_inRange [of h b r]
        endTurn_inRange [of h st]
  by (simp add: split_beta)

theorem C10_witness:
  "(case movePiece (0, 7) (0, 6) 0 captureStore (snd captureScene) of
      (st', h') \<Rightarrow> boardInRange h' (board st'))
   \<and> (case executeAbility 0 6 (0, 1) (fst barrageScene) (snd barrageScene) of
         (res, h') \<Rightarrow> boardInRange h' (resultBoard res))
   \<and> boardInRange (snd (processStatusEffects 0 (snd statusScene))) (fst statusScene)
   \<and> (case endTurn (newStore (fst statusScene) WHITE) (snd statusScene) of
         (st', h') \<Rightarrow> boardInRange h' (board st'))"
proof -
  have m: "boardInRange (snd captureScene) (board captureStore)
           \<and> attackNonNegative (snd captureScene) (board captureStore)"
    by code_simp
  have a: "boardInRange (snd barrageScene) (fst barrageScene)
           \<and> cellInRange (snd barrageScene) (Some 0)
           \<and> abilityNonNegative (abils (snd barrageScene) 6)"
    by code_simp
  have p: "boardInRange (snd statusScene) (fst statusScene)
           \<and> effectsNonNegative (pieces (snd statusScene) 0)"
    by code_simp
  have e: "boardInRange (snd statusScene) (board (newStore (fst statusScene) WHITE))"
    by code_simp
  show ?thesis
    using m a p e
      C10_stats_stay_in_range [where h = "snd captureScene" and st = captureStore
        and src = "(0, 7)" and dst = "(0, 6)" and now = 0, THEN conjunct1]
      C10_stats_stay_in_range [where h = "snd barrageScene" and b = "fst barrageScene"
        and caster = 0 and ability = 6 and targetPos = "(0, 1)", THEN conjunct2, THEN conjunct1]
      C10_stats_stay_in_range [where h = "snd statusScene" and b = "fst statusScene"
        and r = 0, THEN conjunct2, THEN conjunct2, THEN conjunct1]
      C10_stats_stay_in_range [where h = "snd statusScene"
        and st = "newStore (fst statusScene) WHITE", THEN conjunct2, THEN conjunct2, THEN conjunct2]
    by simp
qed

end
